theory Spec2Isabelle
  imports Complex_Main "HOL-Library.Multiset"
begin

section \<open>Values decoded from a response line\<close>

text \<open>
  \<^verbatim>\<open>fetch_game_stats\<close> reads the response one line at a time and hands every
  non-blank line to \<^verbatim>\<open>json.loads\<close>. The decoded value is an arbitrary JSON
  document, so the model keeps Python's value kinds apart: \<^verbatim>\<open>None\<close>, \<^verbatim>\<open>bool\<close>,
  \<^verbatim>\<open>int\<close> (unbounded), \<^verbatim>\<open>float\<close>, \<^verbatim>\<open>str\<close>, \<^verbatim>\<open>list\<close> and \<^verbatim>\<open>dict\<close>. A
  \<^verbatim>\<open>dict\<close> is the list of its items (each key once, as in a \<^verbatim>\<open>dict\<close>), looked up
  with \<open>map_of\<close>.
\<close>

datatype pyfloat = Finite rat | PosInf | NegInf | NaN

datatype json =
    JNull
  | JBool bool
  | JInt int
  | JFloat pyfloat
  | JString string
  | JArray "json list"
  | JObject "(string \<times> json) list"

text \<open>
  Exceptions that leave \<^verbatim>\<open>fetch_game_stats\<close> from inside the loop or from the final
  pass. None of them is caught by the function, so each one ends the run without a
  result.
  \<^item> \<open>AttributeError\<close>: \<^verbatim>\<open>.get\<close> on a value that is not a \<^verbatim>\<open>dict\<close>, or
    \<^verbatim>\<open>.lower()\<close> on a value that is not a \<^verbatim>\<open>str\<close>.
  \<^item> \<open>TypeError\<close>: \<^verbatim>\<open>speed in stats["speed_counts"]\<close> with an unhashable
    \<^verbatim>\<open>speed\<close> (a \<^verbatim>\<open>list\<close> or a \<^verbatim>\<open>dict\<close>), or \<^verbatim>\<open>timeline.sort\<close> comparing two
    keys of kinds that have no order.
  \<^item> \<open>TimestampRange\<close>: \<^verbatim>\<open>ts / 1000\<close> or \<^verbatim>\<open>datetime.fromtimestamp\<close> rejects
    the integer (\<^verbatim>\<open>OverflowError\<close>, \<^verbatim>\<open>ValueError\<close> or \<^verbatim>\<open>OSError\<close>, by magnitude).
  \<^item> \<open>RecursionError\<close>: \<^verbatim>\<open>json.loads\<close> gives up on a text nested too deeply
    (it stands for every exception of the decoder other than the two the loop catches).
\<close>

datatype error = AttributeError | TypeError | TimestampRange | RecursionError

datatype outcome = Win | Loss | Draw

datatype color = White | Black

text \<open>
  The library functions that the function calls are parameters of the model.
  \<^item> \<open>py_loads\<close> is \<^verbatim>\<open>json.loads(raw_line.decode("utf-8"))\<close>: \<open>Inr (Some v)\<close>
    when it returns \<open>v\<close>, \<open>Inr None\<close> when it raises \<^verbatim>\<open>UnicodeDecodeError\<close> or
    \<^verbatim>\<open>JSONDecodeError\<close>, the two exceptions the loop catches, and \<open>Inl e\<close> when it
    raises anything else, as it does with \<^verbatim>\<open>RecursionError\<close> on very deep nesting.
  \<^item> \<open>py_lower\<close> is \<^verbatim>\<open>str.lower\<close>.
  \<^item> \<open>py_str\<close> is \<^verbatim>\<open>str(v)\<close> on a decoded value that is not a \<^verbatim>\<open>str\<close>.
  \<^item> \<open>py_sort\<close> is \<^verbatim>\<open>timeline.sort(key=lambda x: x[0])\<close> on a timeline of two or
    more entries whose keys are not all finite numbers: \<open>Inr\<close> the list as the sort
    leaves it, \<open>Inl\<close> the exception it raises. Python orders strings and lists by
    its own rules, raises \<^verbatim>\<open>TypeError\<close> when it meets two keys of kinds it cannot
    compare (which keys meet depends on the order of the list), and with a key that is
    \<^verbatim>\<open>NaN\<close> leaves an order that depends on the sorting algorithm.
\<close>

record pylib =
  py_loads :: "string \<Rightarrow> error + json option"
  py_lower :: "string \<Rightarrow> string"
  py_str :: "json \<Rightarrow> string"
  py_sort :: "(json \<times> outcome) list \<Rightarrow> error + (json \<times> outcome) list"

subsection \<open>Python's reading of a value\<close>

fun truthy :: "json \<Rightarrow> bool" where
  "truthy JNull = False"
| "truthy (JBool b) = b"
| "truthy (JInt i) = (i \<noteq> 0)"
| "truthy (JFloat f) = (f \<noteq> Finite 0)"
| "truthy (JString s) = (s \<noteq> [])"
| "truthy (JArray xs) = (xs \<noteq> [])"
| "truthy (JObject kvs) = (kvs \<noteq> [])"

text \<open>\<^verbatim>\<open>isinstance(v, int)\<close> holds for \<^verbatim>\<open>int\<close> and for \<^verbatim>\<open>bool\<close>, its subclass.\<close>

fun is_int :: "json \<Rightarrow> bool" where
  "is_int (JInt i) = True"
| "is_int (JBool b) = True"
| "is_int v = False"

fun int_of :: "json \<Rightarrow> int" where
  "int_of (JInt i) = i"
| "int_of (JBool b) = (if b then 1 else 0)"
| "int_of v = 0"

text \<open>\<^verbatim>\<open>d.get(k)\<close>: the value, or \<^verbatim>\<open>None\<close> when the key is missing.\<close>

definition get :: "(string \<times> json) list \<Rightarrow> string \<Rightarrow> json" where
  "get d k = (case map_of d k of None \<Rightarrow> JNull | Some v \<Rightarrow> v)"

text \<open>\<^verbatim>\<open>d.get(k, default)\<close>: a key that is present with \<^verbatim>\<open>null\<close> yields \<^verbatim>\<open>None\<close>.\<close>

definition get_default :: "(string \<times> json) list \<Rightarrow> string \<Rightarrow> json \<Rightarrow> json" where
  "get_default d k dflt = (case map_of d k of None \<Rightarrow> dflt | Some v \<Rightarrow> v)"

text \<open>The receiver of a \<^verbatim>\<open>.get\<close> call must be a \<^verbatim>\<open>dict\<close>.\<close>

fun as_dict :: "json \<Rightarrow> error + (string \<times> json) list" where
  "as_dict (JObject kvs) = Inr kvs"
| "as_dict v = Inl AttributeError"

text \<open>\<^verbatim>\<open>a or b\<close>\<close>

definition py_or :: "json \<Rightarrow> json \<Rightarrow> json" where
  "py_or a b = (if truthy a then a else b)"

subsection \<open>Blank lines\<close>

text \<open>\<^verbatim>\<open>bytes.strip()\<close> removes leading and trailing ASCII whitespace.\<close>

definition whitespace :: "char set" where
  "whitespace = {CHR 0x20, CHR 0x09, CHR 0x0A, CHR 0x0D, CHR 0x0B, CHR 0x0C}"

definition strip :: "string \<Rightarrow> string" where
  "strip s = rev (dropWhile (\<lambda>c. c \<in> whitespace) (rev (dropWhile (\<lambda>c. c \<in> whitespace) s)))"

subsection \<open>UTC calendar fields of a millisecond timestamp\<close>

text \<open>
  \<^verbatim>\<open>datetime.fromtimestamp(ts / 1000, timezone.utc)\<close> for an integer \<^verbatim>\<open>ts\<close>. The
  quotient is a double within \<open>2\<^sup>-\<^sup>1\<^sup>6\<close> seconds of the exact value over the accepted
  range, the exact value is a whole number of milliseconds, and the library rounds to
  microseconds, so the second of the result is \<open>ts div 1000\<close> (floor). Accepted are
  the years 1 to 9999 (CPython on a POSIX platform with a 64-bit \<^verbatim>\<open>time_t\<close>). The month comes from the
  proleptic Gregorian calendar, counted in days since 1970-01-01, a Thursday
  (\<^verbatim>\<open>weekday()\<close> 3, Monday being 0): \<open>doe\<close> is the day within the 400-year
  cycle that starts on 0000-03-01, \<open>yoe\<close> the year within the cycle, \<open>doy\<close> the
  day within the year that starts on 1 March, and \<open>month_starts\<close> holds the first
  such day of April, May, and so on to February.
\<close>

definition month_starts :: "int list" where
  "month_starts = [31, 61, 92, 122, 153, 184, 214, 245, 275, 306, 337]"

definition month_of_days :: "int \<Rightarrow> nat" where
  "month_of_days days =
     (let z = days + 719468;
          era = z div 146097;
          doe = z - era * 146097;
          yoe = (doe - doe div 1460 + doe div 36524 - doe div 146096) div 365;
          doy = doe - (365 * yoe + yoe div 4 - yoe div 100);
          mp = length (takeWhile (\<lambda>start. start \<le> doy) month_starts)
      in if mp < 10 then mp + 3 else mp - 9)"

definition utc_fields :: "int \<Rightarrow> error + (nat \<times> nat \<times> nat)" where
  "utc_fields ts =
     (let s = ts div 1000 in
      if s < - 62135596800 \<or> 253402300799 < s then Inl TimestampRange
      else
        let days = s div 86400;
            month = month_of_days days;
            weekday = nat ((days + 3) mod 7);
            hour = nat ((s mod 86400) div 3600)
        in Inr (month, weekday, hour))"

section \<open>The accumulator\<close>

text \<open>
  The \<^verbatim>\<open>stats\<close> dictionary together with the two local buffers \<^verbatim>\<open>timeline\<close> and
  \<^verbatim>\<open>timestamps\<close>. The dictionaries whose keys are fixed by the initialiser
  (\<^verbatim>\<open>speed_counts\<close>, \<^verbatim>\<open>results\<close>, \<^verbatim>\<open>color_results\<close>, \<^verbatim>\<open>endings\<close>,
  \<^verbatim>\<open>opponent_by_speed\<close>) are functions on their keys, with the key lists kept
  beside them for the membership tests; \<^verbatim>\<open>opponent_hist\<close>, whose keys appear as
  ratings arrive, is a map. An entry of \<^verbatim>\<open>top_wins\<close> is
  \<^verbatim>\<open>(rating, name, game_id)\<close>; a \<^verbatim>\<open>bool\<close> rating is held as the integer it equals.
  What \<^verbatim>\<open>fetch_game_stats\<close> returns is the record without its last two fields.
\<close>

record state =
  total :: nat
  speed_counts :: "string \<Rightarrow> nat"
  other_speeds :: nat
  results :: "outcome \<Rightarrow> nat"
  color_results :: "color \<Rightarrow> outcome \<Rightarrow> nat"
  endings :: "string \<Rightarrow> nat"
  timeout_wins :: nat
  timeout_losses :: nat
  opponent_rating_sum :: int
  opponent_rating_count :: nat
  opponent_by_speed :: "string \<Rightarrow> int \<times> nat"
  opponent_hist :: "int \<rightharpoonup> nat"
  top_wins :: "(int \<times> json \<times> json) list"
  month_counts :: "nat list"
  wday_counts :: "nat list"
  hour_counts :: "nat list"
  longest_win_streak :: nat
  longest_loss_streak :: nat
  longest_gap_ms :: int
  timeline :: "(json \<times> outcome) list"
  timestamps :: "int list"

definition speed_keys :: "string list" where
  "speed_keys = [''bullet'', ''blitz'', ''rapid'', ''classical'']"

definition ending_keys :: "string list" where
  "ending_keys = [''mate'', ''resign'', ''stalemate'', ''timeout'', ''outoftime'',
                  ''aborted'', ''draw'', ''other'']"

definition draw_statuses :: "string list" where
  "draw_statuses = [''draw'', ''stalemate'', ''repetition'', ''50move'',
                    ''timevsinsufficientmaterial'', ''insufficientmaterial'', ''agreed'']"

definition init_state :: state where
  "init_state =
     \<lparr> total = 0,
       speed_counts = (\<lambda>k. 0),
       other_speeds = 0,
       results = (\<lambda>out. 0),
       color_results = (\<lambda>c out. 0),
       endings = (\<lambda>k. 0),
       timeout_wins = 0,
       timeout_losses = 0,
       opponent_rating_sum = 0,
       opponent_rating_count = 0,
       opponent_by_speed = (\<lambda>k. (0, 0)),
       opponent_hist = Map.empty,
       top_wins = [],
       month_counts = replicate 12 0,
       wday_counts = replicate 7 0,
       hour_counts = replicate 24 0,
       longest_win_streak = 0,
       longest_loss_streak = 0,
       longest_gap_ms = 0,
       timeline = [],
       timestamps = [] \<rparr>"

text \<open>\<^verbatim>\<open>d[k] += 1\<close> on a dictionary and \<^verbatim>\<open>xs[i] += 1\<close> on a list.\<close>

definition bump :: "('k \<Rightarrow> nat) \<Rightarrow> 'k \<Rightarrow> ('k \<Rightarrow> nat)" where
  "bump f k = f(k := f k + 1)"

definition bump_at :: "nat list \<Rightarrow> nat \<Rightarrow> nat list" where
  "bump_at xs i = xs[i := xs ! i + 1]"

section \<open>One pass of the loop body\<close>

subsection \<open>Timestamp (lines 107 to 113)\<close>

definition get_ts :: "(string \<times> json) list \<Rightarrow> json" where
  "get_ts game = py_or (get game ''createdAt'') (get game ''lastMoveAt'')"

definition record_timestamp :: "int \<Rightarrow> nat \<times> nat \<times> nat \<Rightarrow> state \<Rightarrow> state" where
  "record_timestamp ts cal st =
     (case cal of (month, weekday, hour) \<Rightarrow>
        st\<lparr> timestamps := timestamps st @ [ts],
            month_counts := bump_at (month_counts st) (month - 1),
            wday_counts := bump_at (wday_counts st) weekday,
            hour_counts := bump_at (hour_counts st) hour \<rparr>)"

definition note_timestamp :: "json \<Rightarrow> state \<Rightarrow> error + state" where
  "note_timestamp ts st =
     (if is_int ts then
        (case utc_fields (int_of ts) of
           Inl e \<Rightarrow> Inl e
         | Inr cal \<Rightarrow> Inr (record_timestamp (int_of ts) cal st))
      else Inr st)"

subsection \<open>Speed (lines 115 to 119)\<close>

fun hashable :: "json \<Rightarrow> bool" where
  "hashable (JArray xs) = False"
| "hashable (JObject kvs) = False"
| "hashable v = True"

text \<open>\<^verbatim>\<open>speed in d\<close> for a dictionary \<^verbatim>\<open>d\<close> with the string keys \<open>keys\<close>.\<close>

fun key_in :: "json \<Rightarrow> string list \<Rightarrow> bool" where
  "key_in (JString s) keys = (s \<in> set keys)"
| "key_in v keys = False"

text \<open>The text of a \<^verbatim>\<open>str\<close> value, used as a key once \<open>key_in\<close> holds.\<close>

fun str_of :: "json \<Rightarrow> string" where
  "str_of (JString s) = s"
| "str_of v = []"

definition bump_speed :: "json \<Rightarrow> state \<Rightarrow> state" where
  "bump_speed speed st =
     (if key_in speed speed_keys
      then st\<lparr> speed_counts := bump (speed_counts st) (str_of speed) \<rparr>
      else st\<lparr> other_speeds := other_speeds st + 1 \<rparr>)"

definition count_speed :: "json \<Rightarrow> state \<Rightarrow> error + state" where
  "count_speed speed st =
     (if \<not> hashable speed then Inl TypeError else Inr (bump_speed speed st))"

subsection \<open>The subject's colour (lines 121 to 133)\<close>

text \<open>\<^verbatim>\<open>(player.get("user") or {}).get("id", "").lower()\<close>\<close>

definition player_id :: "pylib \<Rightarrow> (string \<times> json) list \<Rightarrow> error + string" where
  "player_id py player =
     (case as_dict (py_or (get player ''user'') (JObject [])) of
        Inl e \<Rightarrow> Inl e
      | Inr user \<Rightarrow>
          (case get_default user ''id'' (JString []) of
             JString s \<Rightarrow> Inr (py_lower py s)
           | _ \<Rightarrow> Inl AttributeError))"

text \<open>
  Returns \<^verbatim>\<open>white\<close>, \<^verbatim>\<open>black\<close> and \<^verbatim>\<open>user_color\<close>; \<^verbatim>\<open>opp_color\<close> is the other
  colour exactly when \<^verbatim>\<open>user_color\<close> is set.
\<close>

definition identify ::
  "pylib \<Rightarrow> string \<Rightarrow> (string \<times> json) list
     \<Rightarrow> error + ((string \<times> json) list \<times> (string \<times> json) list \<times> color option)" where
  "identify py username game =
     (case as_dict (get_default game ''players'' (JObject [])) of
        Inl e \<Rightarrow> Inl e
      | Inr players \<Rightarrow>
     (case as_dict (get_default players ''white'' (JObject [])) of
        Inl e \<Rightarrow> Inl e
      | Inr white \<Rightarrow>
     (case player_id py white of
        Inl e \<Rightarrow> Inl e
      | Inr white_id \<Rightarrow>
     (case as_dict (get_default players ''black'' (JObject [])) of
        Inl e \<Rightarrow> Inl e
      | Inr black \<Rightarrow>
     (case player_id py black of
        Inl e \<Rightarrow> Inl e
      | Inr black_id \<Rightarrow>
          Inr (white, black,
               if white_id = py_lower py username then Some White
               else if black_id = py_lower py username then Some Black
               else None))))))"

subsection \<open>Status, winner and outcome (lines 135 to 162)\<close>

text \<open>\<^verbatim>\<open>str(game.get("status", "")).lower()\<close>\<close>

definition get_status :: "pylib \<Rightarrow> (string \<times> json) list \<Rightarrow> string" where
  "get_status py game =
     (case get_default game ''status'' (JString []) of
        JString s \<Rightarrow> py_lower py s
      | v \<Rightarrow> py_lower py (py_str py v))"

definition color_name :: "color \<Rightarrow> string" where
  "color_name c = (case c of White \<Rightarrow> ''white'' | Black \<Rightarrow> ''black'')"

definition derive_outcome :: "color \<Rightarrow> json \<Rightarrow> bool \<Rightarrow> outcome" where
  "derive_outcome user_color winner is_draw_status =
     (if winner = JString (color_name user_color) then Win
      else if winner = JString ''white'' \<or> winner = JString ''black'' then Loss
      else if is_draw_status \<or> winner = JNull then Draw
      else Draw)"

definition count_result :: "color option \<Rightarrow> outcome option \<Rightarrow> json \<Rightarrow> state \<Rightarrow> state" where
  "count_result user_color outcome ts st =
     (case (user_color, outcome) of
        (Some c, Some out) \<Rightarrow>
          st\<lparr> results := bump (results st) out,
              color_results := (color_results st)(c := bump (color_results st c) out),
              timeline := timeline st @ [(py_or ts (JInt 0), out)] \<rparr>
      | _ \<Rightarrow> st)"

subsection \<open>Endings (lines 164 to 171)\<close>

definition count_ending :: "string \<Rightarrow> outcome option \<Rightarrow> state \<Rightarrow> state" where
  "count_ending status outcome st =
     (if status \<noteq> [] then
        let key = (if status \<in> set ending_keys then status else ''other'');
            st1 = st\<lparr> endings := bump (endings st) key \<rparr>
        in if status = ''timeout'' \<or> status = ''outoftime'' then
             (if outcome = Some Win then st1\<lparr> timeout_wins := timeout_wins st1 + 1 \<rparr>
              else if outcome = Some Loss then st1\<lparr> timeout_losses := timeout_losses st1 + 1 \<rparr>
              else st1)
           else st1
      else st)"

subsection \<open>Opponent strength (lines 173 to 190)\<close>

text \<open>
  \<^verbatim>\<open>top_wins.append(t); top_wins.sort(key=lambda t: t[0], reverse=True)\<close> and the
  \<^verbatim>\<open>pop()\<close> of a fourth entry. Python's sort is stable also with \<^verbatim>\<open>reverse=True\<close>,
  which is the stable ascending sort on the negated rating.

  In \<open>count_opponent\<close> the receiver of \<^verbatim>\<open>.get("name")\<close> is the expression that
  \<open>player_id\<close> has already evaluated for the same player at line 126 or 127, so it
  is a \<^verbatim>\<open>dict\<close> whenever line 186 is reached.
\<close>

definition push_top_win :: "int \<times> json \<times> json \<Rightarrow> (int \<times> json \<times> json) list \<Rightarrow> (int \<times> json \<times> json) list" where
  "push_top_win t tw =
     (let sorted_tw = sort_key (\<lambda>t. - fst t) (tw @ [t])
      in if length sorted_tw > 3 then butlast sorted_tw else sorted_tw)"

definition add_rating :: "(string \<Rightarrow> int \<times> nat) \<Rightarrow> string \<Rightarrow> int \<Rightarrow> (string \<Rightarrow> int \<times> nat)" where
  "add_rating f k r = f(k := (fst (f k) + r, snd (f k) + 1))"

definition count_opponent ::
  "color option \<Rightarrow> (string \<times> json) list \<Rightarrow> (string \<times> json) list \<Rightarrow> json \<Rightarrow> outcome option
     \<Rightarrow> json \<Rightarrow> state \<Rightarrow> state" where
  "count_opponent user_color white black speed outcome game_id st =
     (case user_color of
        None \<Rightarrow> st
      | Some c \<Rightarrow>
          let opp_player = (if c = White then black else white);
              opp_rating = get opp_player ''rating''
          in if is_int opp_rating then
               let r = int_of opp_rating;
                   st1 = st\<lparr> opponent_rating_sum := opponent_rating_sum st + r,
                             opponent_rating_count := opponent_rating_count st + 1 \<rparr>;
                   st2 = (if key_in speed speed_keys
                          then st1\<lparr> opponent_by_speed :=
                                      add_rating (opponent_by_speed st1) (str_of speed) r \<rparr>
                          else st1);
                   bucket = (r div 100) * 100;
                   st3 = st2\<lparr> opponent_hist := (opponent_hist st2)
                               (bucket \<mapsto> (case opponent_hist st2 bucket of None \<Rightarrow> 0 | Some n \<Rightarrow> n) + 1) \<rparr>
               in if outcome = Some Win then
                    let opp_name = py_or (get (case as_dict (py_or (get opp_player ''user'') (JObject []))
                                               of Inr user \<Rightarrow> user | Inl e \<Rightarrow> []) ''name'')
                                         (JString ''?'')
                    in st3\<lparr> top_wins := push_top_win (r, opp_name, game_id) (top_wins st3) \<rparr>
                  else st3
             else st)"

subsection \<open>The loop body\<close>

definition ingest_game :: "pylib \<Rightarrow> string \<Rightarrow> json \<Rightarrow> state \<Rightarrow> error + state" where
  "ingest_game py username decoded st =
     (case as_dict decoded of
        Inl e \<Rightarrow> Inl e
      | Inr game \<Rightarrow>
     (let ts = get_ts game in
      case note_timestamp ts st of
        Inl e \<Rightarrow> Inl e
      | Inr st1 \<Rightarrow>
     (let speed = get game ''speed'' in
      case count_speed speed st1 of
        Inl e \<Rightarrow> Inl e
      | Inr st2 \<Rightarrow>
     (case identify py username game of
        Inl e \<Rightarrow> Inl e
      | Inr (white, black, user_color) \<Rightarrow>
          let status = get_status py game;
              winner = get game ''winner'';
              is_draw_status = (status \<in> set draw_statuses);
              outcome = map_option (\<lambda>c. derive_outcome c winner is_draw_status) user_color;
              st3 = count_result user_color outcome ts st2;
              st4 = count_ending status outcome st3;
              st5 = count_opponent user_color white black speed outcome (get game ''id'') st4
          in Inr st5))))"

text \<open>
  Lines 98 to 105: blank lines are passed over, every other line is counted; a line
  that the decoder rejects with one of the two caught exceptions is left at that, and
  any other exception of the decoder leaves the function.
\<close>

definition ingest_line :: "pylib \<Rightarrow> string \<Rightarrow> string \<Rightarrow> state \<Rightarrow> error + state" where
  "ingest_line py username raw_line st =
     (if strip raw_line = [] then Inr st
      else
        let st1 = st\<lparr> total := total st + 1 \<rparr>
        in case py_loads py raw_line of
             Inl e \<Rightarrow> Inl e
           | Inr None \<Rightarrow> Inr st1
           | Inr (Some decoded) \<Rightarrow> ingest_game py username decoded st1)"

fun ingest_lines :: "pylib \<Rightarrow> string \<Rightarrow> string list \<Rightarrow> state \<Rightarrow> error + state" where
  "ingest_lines py username [] st = Inr st"
| "ingest_lines py username (raw_line # rest) st =
     (case ingest_line py username raw_line st of
        Inl e \<Rightarrow> Inl e
      | Inr st1 \<Rightarrow> ingest_lines py username rest st1)"

section \<open>The final pass (lines 196 to 218)\<close>

text \<open>
  The running counters of the walk, as \<^verbatim>\<open>(longest_win, longest_loss, current_win,
  current_loss)\<close>.
\<close>

fun streak_step :: "nat \<times> nat \<times> nat \<times> nat \<Rightarrow> outcome \<Rightarrow> nat \<times> nat \<times> nat \<times> nat" where
  "streak_step (longest_win, longest_loss, current_win, current_loss) out =
     (let (current_win, current_loss) =
            (if out = Win then (current_win + 1, 0)
             else if out = Loss then (0, current_loss + 1)
             else (0, 0))
      in (max longest_win current_win, max longest_loss current_loss, current_win, current_loss))"

definition walk_streaks :: "outcome list \<Rightarrow> nat \<times> nat \<times> nat \<times> nat" where
  "walk_streaks outs = foldl streak_step (0, 0, 0, 0) outs"

text \<open>
  \<^verbatim>\<open>timeline.sort(key=lambda x: x[0])\<close>. A list of fewer than two entries is left
  as it is, without a comparison. Numbers compare by value whatever their kind
  (\<^verbatim>\<open>bool\<close>, \<^verbatim>\<open>int\<close>, finite \<^verbatim>\<open>float\<close>), so when every key is a finite number
  the result is the stable sort by value. Every other timeline is left to the
  library (\<open>py_sort\<close>).
\<close>

fun num_key :: "json \<Rightarrow> rat option" where
  "num_key (JInt i) = Some (of_int i)"
| "num_key (JBool b) = Some (if b then 1 else 0)"
| "num_key (JFloat (Finite r)) = Some r"
| "num_key v = None"

definition key_value :: "json \<Rightarrow> rat" where
  "key_value k = (case num_key k of Some r \<Rightarrow> r | None \<Rightarrow> 0)"

definition sort_timeline :: "pylib \<Rightarrow> (json \<times> outcome) list \<Rightarrow> error + (json \<times> outcome) list" where
  "sort_timeline py entries =
     (if length entries < 2 then Inr entries
      else if list_all (\<lambda>e. num_key (fst e) \<noteq> None) entries
      then Inr (sort_key (\<lambda>e. key_value (fst e)) entries)
      else py_sort py entries)"

text \<open>\<^verbatim>\<open>[timestamps[i] - timestamps[i - 1] for i in range(1, len(timestamps))]\<close>\<close>

definition gaps :: "int list \<Rightarrow> int list" where
  "gaps ts = map (\<lambda>i. ts ! i - ts ! (i - 1)) [1 ..< length ts]"

text \<open>\<^verbatim>\<open>max(xs)\<close> of a list that is not empty.\<close>

fun py_max :: "int list \<Rightarrow> int" where
  "py_max [] = 0"
| "py_max (x # xs) = foldl max x xs"

definition finalize :: "pylib \<Rightarrow> state \<Rightarrow> error + state" where
  "finalize py st =
     (case (if timeline st \<noteq> [] then
              (case sort_timeline py (timeline st) of
                 Inl e \<Rightarrow> Inl e
               | Inr sorted_tl \<Rightarrow>
                   (case walk_streaks (map snd sorted_tl) of
                      (longest_win, longest_loss, current_win, current_loss) \<Rightarrow>
                        Inr (st\<lparr> timeline := sorted_tl,
                                 longest_win_streak := longest_win,
                                 longest_loss_streak := longest_loss \<rparr>)))
            else Inr st) of
        Inl e \<Rightarrow> Inl e
      | Inr st1 \<Rightarrow>
          Inr (if length (timestamps st1) > 1 then
                 let sorted_ts = sort (timestamps st1)
                 in st1\<lparr> timestamps := sorted_ts,
                         longest_gap_ms := py_max (gaps sorted_ts) \<rparr>
               else st1))"

section \<open>The whole function\<close>

text \<open>
  \<open>lines\<close> is what iterating over the opened response yields. The request itself,
  and the \<^verbatim>\<open>RuntimeError\<close> raised when it cannot be opened, come before the first line
  and are not part of the model; \<^verbatim>\<open>year\<close> only enters the request.
\<close>

definition fetch_game_stats :: "pylib \<Rightarrow> string \<Rightarrow> string list \<Rightarrow> error + state" where
  "fetch_game_stats py username lines =
     (case ingest_lines py username lines init_state of
        Inl e \<Rightarrow> Inl e
      | Inr st \<Rightarrow> finalize py st)"

section \<open>Example lines\<close>

text \<open>
  The lines used to exercise the theorems below, each with the value that
  \<^verbatim>\<open>json.loads\<close> returns for it. \<open>sample_py\<close> decodes exactly these lines, raises
  \<^verbatim>\<open>RecursionError\<close> on \<open>deep_line\<close> (two thousand opening brackets) and rejects
  every other text with \<^verbatim>\<open>JSONDecodeError\<close> (among them \<open>garbled_line\<close> and
  \<open>blank_line\<close>); its \<open>py_lower\<close> lowers the ASCII
  letters, and its \<open>py_str\<close> is \<^verbatim>\<open>str\<close> on \<^verbatim>\<open>None\<close>, \<^verbatim>\<open>True\<close> and \<^verbatim>\<open>False\<close>. No other
  kind of value stands as a status in the examples; for those \<open>py_str\<close> gives a text
  that, like every \<^verbatim>\<open>str(v)\<close> of a number, list or dict, is not empty and is none of
  the names the loop tests.

  The only timelines of the examples that \<open>sort_timeline\<close> leaves to the library
  have numbers as keys, one of them \<^verbatim>\<open>NaN\<close>, and no key less than the key before it.
  \<^verbatim>\<open>list.sort\<close> begins by comparing each key with the one before it; \<^verbatim>\<open><\<close> is
  false whenever one side is \<^verbatim>\<open>NaN\<close>, so on such a timeline every comparison is
  false, the list counts as one ascending run, and the sort leaves it as it is.
  \<open>sample_sort\<close> is the library sort on these timelines; on any other it raises
  \<^verbatim>\<open>TypeError\<close>, which no example reaches.
\<close>

fun num_val :: "json \<Rightarrow> pyfloat option" where
  "num_val (JInt i) = Some (Finite (of_int i))"
| "num_val (JBool b) = Some (Finite (if b then 1 else 0))"
| "num_val (JFloat f) = Some f"
| "num_val v = None"

text \<open>\<^verbatim>\<open>a < b\<close> on two numbers.\<close>

fun float_lt :: "pyfloat \<Rightarrow> pyfloat \<Rightarrow> bool" where
  "float_lt (Finite a) (Finite b) = (a < b)"
| "float_lt (Finite a) PosInf = True"
| "float_lt NegInf (Finite b) = True"
| "float_lt NegInf PosInf = True"
| "float_lt a b = False"

definition key_lt :: "json \<Rightarrow> json \<Rightarrow> bool option" where
  "key_lt a b =
     (case (num_val a, num_val b) of
        (Some x, Some y) \<Rightarrow> Some (float_lt x y)
      | _ \<Rightarrow> None)"

definition sample_sort :: "(json \<times> outcome) list \<Rightarrow> error + (json \<times> outcome) list" where
  "sample_sort entries =
     (if list_all (\<lambda>(before, e). key_lt (fst e) (fst before) = Some False)
           (zip entries (drop 1 entries))
      then Inr entries
      else Inl TypeError)"

definition ascii_lower :: "string \<Rightarrow> string" where
  "ascii_lower s =
     map (\<lambda>c. if (65::nat) \<le> of_char c \<and> of_char c \<le> (90::nat)
              then char_of (of_char c + (32::nat)) else c) s"

definition tie_line_1 :: string where
  \<open>tie_line_1 = ''{"id":"g1","createdAt":1735700000001,"winner":"white","players":{"white":{"user":{"id":"Alice"}},"black":{"rating":1500}}}''\<close>

definition tie_line_2 :: string where
  \<open>tie_line_2 = ''{"id":"g2","createdAt":1735700000002,"winner":"white","players":{"white":{"user":{"id":"Alice"}},"black":{"rating":1500}}}''\<close>

definition tie_line_3 :: string where
  \<open>tie_line_3 = ''{"id":"g3","createdAt":1735700000003,"winner":"white","players":{"white":{"user":{"id":"Alice"}},"black":{"rating":1500}}}''\<close>

definition tie_line_4 :: string where
  \<open>tie_line_4 = ''{"id":"g4","createdAt":1735700000004,"winner":"white","players":{"white":{"user":{"id":"Alice"}},"black":{"rating":1500}}}''\<close>

definition tie_fields :: "string \<Rightarrow> int \<Rightarrow> (string \<times> json) list" where
  "tie_fields gid created =
     [(''id'', JString gid), (''createdAt'', JInt created), (''winner'', JString ''white''),
      (''players'', JObject
         [(''white'', JObject [(''user'', JObject [(''id'', JString ''Alice'')])]),
          (''black'', JObject [(''rating'', JInt 1500)])])]"

definition tie_game :: "string \<Rightarrow> int \<Rightarrow> json" where
  "tie_game gid created = JObject (tie_fields gid created)"

definition early_win_line :: string where
  \<open>early_win_line = ''{"id":"a","createdAt":1735689600000,"winner":"white","players":{"white":{"user":{"id":"alice"}},"black":{"rating":1500}}}''\<close>

definition early_win_fields :: "(string \<times> json) list" where
  "early_win_fields =
     [(''id'', JString ''a''), (''createdAt'', JInt 1735689600000),
      (''winner'', JString ''white''),
      (''players'', JObject
         [(''white'', JObject [(''user'', JObject [(''id'', JString ''alice'')])]),
          (''black'', JObject [(''rating'', JInt 1500)])])]"

definition early_win_game :: json where
  "early_win_game = JObject early_win_fields"

definition late_loss_line :: string where
  \<open>late_loss_line = ''{"id":"b","createdAt":1738411200000,"winner":"white","players":{"black":{"user":{"id":"alice"}},"white":{"rating":1600}}}''\<close>

definition late_loss_fields :: "(string \<times> json) list" where
  "late_loss_fields =
     [(''id'', JString ''b''), (''createdAt'', JInt 1738411200000),
      (''winner'', JString ''white''),
      (''players'', JObject
         [(''black'', JObject [(''user'', JObject [(''id'', JString ''alice'')])]),
          (''white'', JObject [(''rating'', JInt 1600)])])]"

definition late_loss_game :: json where
  "late_loss_game = JObject late_loss_fields"

definition zero_created_line :: string where
  \<open>zero_created_line = ''{"createdAt":0}''\<close>

definition zero_created_fields :: "(string \<times> json) list" where
  "zero_created_fields = [(''createdAt'', JInt 0)]"

definition zero_created_game :: json where
  "zero_created_game = JObject zero_created_fields"

definition undated_win_line :: string where
  \<open>undated_win_line = ''{"winner":"white","players":{"white":{"user":{"id":"alice"}}}}''\<close>

definition undated_win_game :: json where
  "undated_win_game =
     JObject [(''winner'', JString ''white''),
       (''players'', JObject [(''white'', JObject [(''user'', JObject [(''id'', JString ''alice'')])])])]"

definition undated_loss_line :: string where
  \<open>undated_loss_line = ''{"winner":"black","players":{"white":{"user":{"id":"alice"}}}}''\<close>

definition undated_loss_game :: json where
  "undated_loss_game =
     JObject [(''winner'', JString ''black''),
       (''players'', JObject [(''white'', JObject [(''user'', JObject [(''id'', JString ''alice'')])])])]"

definition garbled_line :: string where
  "garbled_line = ''{id: g9''"

definition blank_line :: string where
  "blank_line = [CHR 0x20, CHR 0x09, CHR 0x0D, CHR 0x0A]"

definition deep_line :: string where
  "deep_line = replicate 2000 (CHR 0x5B)"

text \<open>
  Two wins created at 5 and 3 milliseconds, and a loss whose \<^verbatim>\<open>createdAt\<close> is
  \<^verbatim>\<open>NaN\<close>, which \<^verbatim>\<open>json.loads\<close> accepts.
\<close>

definition win_at_5_line :: string where
  \<open>win_at_5_line = ''{"createdAt":5,"winner":"white","players":{"white":{"user":{"id":"alice"}}}}''\<close>

definition win_at_3_line :: string where
  \<open>win_at_3_line = ''{"createdAt":3,"winner":"white","players":{"white":{"user":{"id":"alice"}}}}''\<close>

definition nan_loss_line :: string where
  \<open>nan_loss_line = ''{"createdAt":NaN,"winner":"black","players":{"white":{"user":{"id":"alice"}}}}''\<close>

definition dated_game :: "json \<Rightarrow> string \<Rightarrow> json" where
  "dated_game created winner =
     JObject [(''createdAt'', created), (''winner'', JString winner),
       (''players'', JObject [(''white'', JObject [(''user'', JObject [(''id'', JString ''alice'')])])])]"

definition sample_loads :: "string \<Rightarrow> error + json option" where
  "sample_loads raw_line =
     (if raw_line = deep_line then Inl RecursionError
      else Inr (map_of
         [(tie_line_1, tie_game ''g1'' 1735700000001), (tie_line_2, tie_game ''g2'' 1735700000002),
          (tie_line_3, tie_game ''g3'' 1735700000003), (tie_line_4, tie_game ''g4'' 1735700000004),
          (early_win_line, early_win_game), (late_loss_line, late_loss_game),
          (zero_created_line, zero_created_game),
          (undated_win_line, undated_win_game), (undated_loss_line, undated_loss_game),
          (win_at_5_line, dated_game (JInt 5) ''white''),
          (win_at_3_line, dated_game (JInt 3) ''white''),
          (nan_loss_line, dated_game (JFloat NaN) ''black'')] raw_line))"

definition sample_py :: pylib where
  "sample_py =
     \<lparr> py_loads = sample_loads,
       py_lower = ascii_lower,
       py_str = (\<lambda>v. case v of JNull \<Rightarrow> ''None''
                        | JBool b \<Rightarrow> (if b then ''True'' else ''False'')
                        | _ \<Rightarrow> ''?''),
       py_sort = sample_sort \<rparr>"

text \<open>Accumulators as the loop may leave them, with the buffers out of order.\<close>

definition scrambled_timestamps :: state where
  "scrambled_timestamps = init_state\<lparr> timestamps := [5000, 50000, 1000, 6000] \<rparr>"

definition single_timestamp :: state where
  "single_timestamp = init_state\<lparr> timestamps := [1735689600000] \<rparr>"



text \<open>A record of a stalemate with the subject as White and no winner.\<close>

definition drawn_fields :: "(string \<times> json) list" where
  "drawn_fields =
     [(''status'', JString ''Stalemate''),
      (''players'', JObject
         [(''white'', JObject [(''user'', JObject [(''id'', JString ''alice'')])]),
          (''black'', JObject [(''user'', JObject [(''id'', JString ''bob'')])])])]"

text \<open>Three wins held in \<^verbatim>\<open>top_wins\<close>.\<close>

definition podium :: "(int \<times> json \<times> json) list" where
  "podium = [(1700, JString ''ann'', JString ''p1''), (1600, JString ''ben'', JString ''p2''),
             (1500, JString ''cat'', JString ''p3'')]"

section \<open>What one record contributes\<close>

text \<open>
  Every exception in the loop body is decided by the record alone, and the accumulator
  is lost when one is raised. A pass over a record therefore splits into the values the
  body computes from the record (\<open>game_locals\<close>, which fails where the body raises,
  in the same order) and the updates made with them (\<open>apply_locals\<close>, the updates of
  the body in their order). \<open>ingest_game_locals\<close> below proves the split.
\<close>

record locals =
  l_ts :: json
  l_cal :: "(nat \<times> nat \<times> nat) option"
  l_speed :: json
  l_white :: "(string \<times> json) list"
  l_black :: "(string \<times> json) list"
  l_color :: "color option"
  l_status :: string
  l_outcome :: "outcome option"
  l_id :: json

definition game_locals :: "pylib \<Rightarrow> string \<Rightarrow> json \<Rightarrow> error + locals" where
  "game_locals py username decoded =
     (case as_dict decoded of
        Inl e \<Rightarrow> Inl e
      | Inr game \<Rightarrow>
     (let ts = get_ts game in
      case (if is_int ts then map_sum id Some (utc_fields (int_of ts)) else Inr None) of
        Inl e \<Rightarrow> Inl e
      | Inr cal \<Rightarrow>
     (let speed = get game ''speed'' in
      if \<not> hashable speed then Inl TypeError
      else
     (case identify py username game of
        Inl e \<Rightarrow> Inl e
      | Inr (white, black, user_color) \<Rightarrow>
          let status = get_status py game;
              winner = get game ''winner'';
              is_draw_status = (status \<in> set draw_statuses);
              outcome = map_option (\<lambda>c. derive_outcome c winner is_draw_status) user_color
          in Inr \<lparr> l_ts = ts, l_cal = cal, l_speed = speed, l_white = white,
                   l_black = black, l_color = user_color, l_status = status,
                   l_outcome = outcome, l_id = get game ''id'' \<rparr>))))"

definition apply_locals :: "locals \<Rightarrow> state \<Rightarrow> state" where
  "apply_locals l st =
     count_opponent (l_color l) (l_white l) (l_black l) (l_speed l) (l_outcome l) (l_id l)
       (count_ending (l_status l) (l_outcome l)
          (count_result (l_color l) (l_outcome l) (l_ts l)
             (bump_speed (l_speed l)
                (case l_cal l of
                   None \<Rightarrow> st
                 | Some cal \<Rightarrow> record_timestamp (int_of (l_ts l)) cal st))))"

text \<open>The opponent's rating, when the subject has a colour and the rating is an integer.\<close>

definition rated :: "locals \<Rightarrow> int option" where
  "rated l =
     (case l_color l of
        None \<Rightarrow> None
      | Some c \<Rightarrow>
          let opp_rating = get (if c = White then l_black l else l_white l) ''rating''
          in if is_int opp_rating then Some (int_of opp_rating) else None)"

text \<open>The entry a record offers to \<^verbatim>\<open>top_wins\<close>: a rated win.\<close>

definition win_entry :: "locals \<Rightarrow> (int \<times> json \<times> json) option" where
  "win_entry l =
     (case (l_color l, rated l) of
        (Some c, Some r) \<Rightarrow>
          if l_outcome l = Some Win then
            Some (r,
                  py_or (get (case as_dict (py_or (get (if c = White then l_black l else l_white l) ''user'')
                                                  (JObject []))
                              of Inr user \<Rightarrow> user | Inl e \<Rightarrow> []) ''name'')
                        (JString ''?''),
                  l_id l)
          else None
      | _ \<Rightarrow> None)"

text \<open>What a record appends to the two buffers.\<close>

definition timeline_entry :: "locals \<Rightarrow> (json \<times> outcome) list" where
  "timeline_entry l =
     (case (l_color l, l_outcome l) of
        (Some c, Some out) \<Rightarrow> [(py_or (l_ts l) (JInt 0), out)]
      | _ \<Rightarrow> [])"

definition timestamp_entry :: "locals \<Rightarrow> int list" where
  "timestamp_entry l = (case l_cal l of None \<Rightarrow> [] | Some cal \<Rightarrow> [int_of (l_ts l)])"

text \<open>
  The records of a response, in delivery order: the locals of every line that is
  neither blank nor undecodable. \<open>line_ok\<close> holds when the line raises nothing, and
  \<open>counted\<close> is the number of lines that are not blank.
\<close>

definition line_locals :: "pylib \<Rightarrow> string \<Rightarrow> string \<Rightarrow> locals list" where
  "line_locals py username raw_line =
     (if strip raw_line = [] then []
      else case py_loads py raw_line of
             Inr (Some decoded) \<Rightarrow>
               (case game_locals py username decoded of Inl e \<Rightarrow> [] | Inr l \<Rightarrow> [l])
           | _ \<Rightarrow> [])"

definition line_ok :: "pylib \<Rightarrow> string \<Rightarrow> string \<Rightarrow> bool" where
  "line_ok py username raw_line =
     (strip raw_line = [] \<or>
      (case py_loads py raw_line of
         Inl e \<Rightarrow> False
       | Inr None \<Rightarrow> True
       | Inr (Some decoded) \<Rightarrow>
           (case game_locals py username decoded of Inl e \<Rightarrow> False | Inr l \<Rightarrow> True)))"

definition games :: "pylib \<Rightarrow> string \<Rightarrow> string list \<Rightarrow> locals list" where
  "games py username lines = concat (map (line_locals py username) lines)"

definition counted :: "string list \<Rightarrow> nat" where
  "counted lines = length (filter (\<lambda>raw_line. strip raw_line \<noteq> []) lines)"

text \<open>The four speed counters and \<^verbatim>\<open>other_speeds\<close> together.\<close>

definition speed_sum :: "state \<Rightarrow> nat" where
  "speed_sum st =
     speed_counts st ''bullet'' + speed_counts st ''blitz'' + speed_counts st ''rapid''
     + speed_counts st ''classical'' + other_speeds st"


text \<open>
  Runs of equal outcomes. \<open>in_a_row x n xs\<close>: the list holds \<open>n\<close> consecutive
  \<open>x\<close>; \<open>longest_run x xs n\<close>: it does, and no more than \<open>n\<close>;
  \<open>run_at_end x xs\<close> is the length of the run of \<open>x\<close> that ends the list.
\<close>

definition in_a_row :: "'a \<Rightarrow> nat \<Rightarrow> 'a list \<Rightarrow> bool" where
  "in_a_row x n xs \<longleftrightarrow> (\<exists>pre post. xs = pre @ replicate n x @ post)"

definition longest_run :: "'a \<Rightarrow> 'a list \<Rightarrow> nat \<Rightarrow> bool" where
  "longest_run x xs n \<longleftrightarrow> in_a_row x n xs \<and> (\<forall>m. in_a_row x m xs \<longrightarrow> m \<le> n)"

definition run_at_end :: "'a \<Rightarrow> 'a list \<Rightarrow> nat" where
  "run_at_end x xs = length (takeWhile (\<lambda>y. y = x) (rev xs))"


text \<open>
  The three result counters together; the records that enter them; and the lines in
  which the subject is one of the two players.
\<close>

definition result_sum :: "state \<Rightarrow> nat" where
  "result_sum st = results st Win + results st Loss + results st Draw"

definition scored :: "locals \<Rightarrow> bool" where
  "scored l \<longleftrightarrow> l_color l \<noteq> None \<and> l_outcome l \<noteq> None"

definition identified :: "pylib \<Rightarrow> string \<Rightarrow> string \<Rightarrow> bool" where
  "identified py username raw_line \<longleftrightarrow>
     (\<exists>game white black c. py_loads py raw_line = Inr (Some (JObject game))
        \<and> identify py username game = Inr (white, black, Some c))"


text \<open>
  Tools for \<^verbatim>\<open>top_wins\<close>. \<open>place_last f t xs\<close> puts \<open>t\<close> into a list sorted by
  \<open>f\<close>, behind the entries whose key is not greater; \<open>neg_rating\<close> is the key of the
  descending sort; \<open>top3\<close> is the head of the stably sorted list of all wins;
  \<open>win_entries\<close> collects the entries that a list of records offers.
\<close>

fun place_last :: "('a \<Rightarrow> 'k::linorder) \<Rightarrow> 'a \<Rightarrow> 'a list \<Rightarrow> 'a list" where
  "place_last f t [] = [t]"
| "place_last f t (x # xs) = (if f x \<le> f t then x # place_last f t xs else t # x # xs)"

definition neg_rating :: "int \<times> json \<times> json \<Rightarrow> int" where
  "neg_rating t = - fst t"

definition top3 :: "(int \<times> json \<times> json) list \<Rightarrow> (int \<times> json \<times> json) list" where
  "top3 entries = take 3 (sort_key neg_rating entries)"

definition win_entries :: "locals list \<Rightarrow> (int \<times> json \<times> json) list" where
  "win_entries ls = concat (map (\<lambda>l. case win_entry l of None \<Rightarrow> [] | Some t \<Rightarrow> [t]) ls)"


text \<open>
  Two accumulators agree when they differ at most in the order of the two buffers and in
  \<^verbatim>\<open>top_wins\<close>.
\<close>

definition agree :: "state \<Rightarrow> state \<Rightarrow> bool" where
  "agree s t \<longleftrightarrow>
     total s = total t
     \<and> speed_counts s = speed_counts t
     \<and> other_speeds s = other_speeds t
     \<and> results s = results t
     \<and> color_results s = color_results t
     \<and> endings s = endings t
     \<and> timeout_wins s = timeout_wins t
     \<and> timeout_losses s = timeout_losses t
     \<and> opponent_rating_sum s = opponent_rating_sum t
     \<and> opponent_rating_count s = opponent_rating_count t
     \<and> opponent_by_speed s = opponent_by_speed t
     \<and> opponent_hist s = opponent_hist t
     \<and> month_counts s = month_counts t
     \<and> wday_counts s = wday_counts t
     \<and> hour_counts s = hour_counts t
     \<and> longest_win_streak s = longest_win_streak t
     \<and> longest_loss_streak s = longest_loss_streak t
     \<and> longest_gap_ms s = longest_gap_ms t
     \<and> mset (timeline s) = mset (timeline t)
     \<and> mset (timestamps s) = mset (timestamps t)"

text \<open>The timeline as the loop leaves it, before the final pass sorts it.\<close>

definition buffered_timeline :: "pylib \<Rightarrow> string \<Rightarrow> string list \<Rightarrow> (json \<times> outcome) list" where
  "buffered_timeline py username lines =
     (case ingest_lines py username lines init_state of
        Inl e \<Rightarrow> []
      | Inr st \<Rightarrow> timeline st)"

text \<open>The entry a line puts into an empty \<^verbatim>\<open>top_wins\<close> when it is the only line.\<close>

definition won_alone :: "pylib \<Rightarrow> string \<Rightarrow> string \<Rightarrow> (int \<times> json \<times> json) list" where
  "won_alone py username raw_line =
     (case ingest_line py username raw_line init_state of
        Inl e \<Rightarrow> []
      | Inr st \<Rightarrow> top_wins st)"

section \<open>Fields a step leaves alone\<close>

lemma record_timestamp_frame [simp]:
  "total (record_timestamp ts cal st) = total st"
  "speed_counts (record_timestamp ts cal st) = speed_counts st"
  "other_speeds (record_timestamp ts cal st) = other_speeds st"
  "results (record_timestamp ts cal st) = results st"
  "color_results (record_timestamp ts cal st) = color_results st"
  "endings (record_timestamp ts cal st) = endings st"
  "timeout_wins (record_timestamp ts cal st) = timeout_wins st"
  "timeout_losses (record_timestamp ts cal st) = timeout_losses st"
  "opponent_rating_sum (record_timestamp ts cal st) = opponent_rating_sum st"
  "opponent_rating_count (record_timestamp ts cal st) = opponent_rating_count st"
  "opponent_by_speed (record_timestamp ts cal st) = opponent_by_speed st"
  "opponent_hist (record_timestamp ts cal st) = opponent_hist st"
  "top_wins (record_timestamp ts cal st) = top_wins st"
  "longest_win_streak (record_timestamp ts cal st) = longest_win_streak st"
  "longest_loss_streak (record_timestamp ts cal st) = longest_loss_streak st"
  "longest_gap_ms (record_timestamp ts cal st) = longest_gap_ms st"
  "timeline (record_timestamp ts cal st) = timeline st"
  by (simp_all add: record_timestamp_def split: prod.splits)

lemma bump_speed_frame [simp]:
  "total (bump_speed speed st) = total st"
  "results (bump_speed speed st) = results st"
  "color_results (bump_speed speed st) = color_results st"
  "endings (bump_speed speed st) = endings st"
  "timeout_wins (bump_speed speed st) = timeout_wins st"
  "timeout_losses (bump_speed speed st) = timeout_losses st"
  "opponent_rating_sum (bump_speed speed st) = opponent_rating_sum st"
  "opponent_rating_count (bump_speed speed st) = opponent_rating_count st"
  "opponent_by_speed (bump_speed speed st) = opponent_by_speed st"
  "opponent_hist (bump_speed speed st) = opponent_hist st"
  "top_wins (bump_speed speed st) = top_wins st"
  "month_counts (bump_speed speed st) = month_counts st"
  "wday_counts (bump_speed speed st) = wday_counts st"
  "hour_counts (bump_speed speed st) = hour_counts st"
  "longest_win_streak (bump_speed speed st) = longest_win_streak st"
  "longest_loss_streak (bump_speed speed st) = longest_loss_streak st"
  "longest_gap_ms (bump_speed speed st) = longest_gap_ms st"
  "timeline (bump_speed speed st) = timeline st"
  "timestamps (bump_speed speed st) = timestamps st"
  by (simp_all add: bump_speed_def)

lemma count_result_frame [simp]:
  "total (count_result user_color outcome ts st) = total st"
  "speed_counts (count_result user_color outcome ts st) = speed_counts st"
  "other_speeds (count_result user_color outcome ts st) = other_speeds st"
  "endings (count_result user_color outcome ts st) = endings st"
  "timeout_wins (count_result user_color outcome ts st) = timeout_wins st"
  "timeout_losses (count_result user_color outcome ts st) = timeout_losses st"
  "opponent_rating_sum (count_result user_color outcome ts st) = opponent_rating_sum st"
  "opponent_rating_count (count_result user_color outcome ts st) = opponent_rating_count st"
  "opponent_by_speed (count_result user_color outcome ts st) = opponent_by_speed st"
  "opponent_hist (count_result user_color outcome ts st) = opponent_hist st"
  "top_wins (count_result user_color outcome ts st) = top_wins st"
  "month_counts (count_result user_color outcome ts st) = month_counts st"
  "wday_counts (count_result user_color outcome ts st) = wday_counts st"
  "hour_counts (count_result user_color outcome ts st) = hour_counts st"
  "longest_win_streak (count_result user_color outcome ts st) = longest_win_streak st"
  "longest_loss_streak (count_result user_color outcome ts st) = longest_loss_streak st"
  "longest_gap_ms (count_result user_color outcome ts st) = longest_gap_ms st"
  "timestamps (count_result user_color outcome ts st) = timestamps st"
  by (simp_all add: count_result_def split: option.splits)

lemma count_ending_frame [simp]:
  "total (count_ending status outcome st) = total st"
  "speed_counts (count_ending status outcome st) = speed_counts st"
  "other_speeds (count_ending status outcome st) = other_speeds st"
  "results (count_ending status outcome st) = results st"
  "color_results (count_ending status outcome st) = color_results st"
  "opponent_rating_sum (count_ending status outcome st) = opponent_rating_sum st"
  "opponent_rating_count (count_ending status outcome st) = opponent_rating_count st"
  "opponent_by_speed (count_ending status outcome st) = opponent_by_speed st"
  "opponent_hist (count_ending status outcome st) = opponent_hist st"
  "top_wins (count_ending status outcome st) = top_wins st"
  "month_counts (count_ending status outcome st) = month_counts st"
  "wday_counts (count_ending status outcome st) = wday_counts st"
  "hour_counts (count_ending status outcome st) = hour_counts st"
  "longest_win_streak (count_ending status outcome st) = longest_win_streak st"
  "longest_loss_streak (count_ending status outcome st) = longest_loss_streak st"
  "longest_gap_ms (count_ending status outcome st) = longest_gap_ms st"
  "timeline (count_ending status outcome st) = timeline st"
  "timestamps (count_ending status outcome st) = timestamps st"
  by (simp_all add: count_ending_def Let_def)

lemma count_opponent_frame [simp]:
  "total (count_opponent user_color white black speed outcome game_id st) = total st"
  "speed_counts (count_opponent user_color white black speed outcome game_id st) = speed_counts st"
  "other_speeds (count_opponent user_color white black speed outcome game_id st) = other_speeds st"
  "results (count_opponent user_color white black speed outcome game_id st) = results st"
  "color_results (count_opponent user_color white black speed outcome game_id st) = color_results st"
  "endings (count_opponent user_color white black speed outcome game_id st) = endings st"
  "timeout_wins (count_opponent user_color white black speed outcome game_id st) = timeout_wins st"
  "timeout_losses (count_opponent user_color white black speed outcome game_id st) = timeout_losses st"
  "month_counts (count_opponent user_color white black speed outcome game_id st) = month_counts st"
  "wday_counts (count_opponent user_color white black speed outcome game_id st) = wday_counts st"
  "hour_counts (count_opponent user_color white black speed outcome game_id st) = hour_counts st"
  "longest_win_streak (count_opponent user_color white black speed outcome game_id st) = longest_win_streak st"
  "longest_loss_streak (count_opponent user_color white black speed outcome game_id st) = longest_loss_streak st"
  "longest_gap_ms (count_opponent user_color white black speed outcome game_id st) = longest_gap_ms st"
  "timeline (count_opponent user_color white black speed outcome game_id st) = timeline st"
  "timestamps (count_opponent user_color white black speed outcome game_id st) = timestamps st"
  by (simp_all add: count_opponent_def Let_def split: option.splits)

lemma ingest_game_locals:
  "ingest_game py username decoded st =
     (case game_locals py username decoded of
        Inl e \<Rightarrow> Inl e
      | Inr l \<Rightarrow> Inr (apply_locals l st))"
  by (simp add: ingest_game_def game_locals_def apply_locals_def note_timestamp_def
      count_speed_def Let_def split: sum.splits prod.splits)



lemma steps_total_upd:
  "record_timestamp ts cal (st\<lparr> total := n \<rparr>) = (record_timestamp ts cal st)\<lparr> total := n \<rparr>"
  "bump_speed speed (st\<lparr> total := n \<rparr>) = (bump_speed speed st)\<lparr> total := n \<rparr>"
  "count_result user_color outcome ts' (st\<lparr> total := n \<rparr>)
     = (count_result user_color outcome ts' st)\<lparr> total := n \<rparr>"
  "count_ending status outcome (st\<lparr> total := n \<rparr>) = (count_ending status outcome st)\<lparr> total := n \<rparr>"
  "count_opponent user_color white black speed outcome game_id (st\<lparr> total := n \<rparr>)
     = (count_opponent user_color white black speed outcome game_id st)\<lparr> total := n \<rparr>"
  by (simp_all add: record_timestamp_def bump_speed_def count_result_def count_ending_def
      count_opponent_def Let_def split: option.splits prod.splits)

lemma apply_locals_total_upd:
  "apply_locals l (st\<lparr> total := n \<rparr>) = (apply_locals l st)\<lparr> total := n \<rparr>"
  by (cases "l_cal l") (simp_all add: apply_locals_def steps_total_upd)


section \<open>Effect of one record on each field\<close>

lemma apply_locals_frame [simp]:
  "total (apply_locals l st) = total st"
  "longest_win_streak (apply_locals l st) = longest_win_streak st"
  "longest_loss_streak (apply_locals l st) = longest_loss_streak st"
  "longest_gap_ms (apply_locals l st) = longest_gap_ms st"
  by (simp_all add: apply_locals_def split: option.splits)

lemma apply_locals_timestamps:
  "timestamps (apply_locals l st) = timestamps st @ timestamp_entry l"
  by (simp add: apply_locals_def timestamp_entry_def record_timestamp_def split: option.splits prod.splits)

lemma apply_locals_calendar:
  "month_counts (apply_locals l st)
     = (case l_cal l of None \<Rightarrow> month_counts st
        | Some cal \<Rightarrow> bump_at (month_counts st) (fst cal - 1))"
  "wday_counts (apply_locals l st)
     = (case l_cal l of None \<Rightarrow> wday_counts st
        | Some cal \<Rightarrow> bump_at (wday_counts st) (fst (snd cal)))"
  "hour_counts (apply_locals l st)
     = (case l_cal l of None \<Rightarrow> hour_counts st
        | Some cal \<Rightarrow> bump_at (hour_counts st) (snd (snd cal)))"
  by (simp_all add: apply_locals_def record_timestamp_def split: option.splits prod.splits)

lemma apply_locals_speed:
  "speed_counts (apply_locals l st)
     = (if key_in (l_speed l) speed_keys then bump (speed_counts st) (str_of (l_speed l))
        else speed_counts st)"
  "other_speeds (apply_locals l st)
     = other_speeds st + (if key_in (l_speed l) speed_keys then 0 else 1)"
  by (simp_all add: apply_locals_def bump_speed_def split: option.splits)

lemma apply_locals_results:
  "results (apply_locals l st)
     = (case (l_color l, l_outcome l) of
          (Some c, Some out) \<Rightarrow> bump (results st) out | _ \<Rightarrow> results st)"
  "color_results (apply_locals l st)
     = (case (l_color l, l_outcome l) of
          (Some c, Some out) \<Rightarrow> (color_results st)(c := bump (color_results st c) out)
        | _ \<Rightarrow> color_results st)"
  "timeline (apply_locals l st) = timeline st @ timeline_entry l"
  by (simp_all add: apply_locals_def count_result_def timeline_entry_def split: option.splits)

lemma apply_locals_endings:
  "endings (apply_locals l st)
     = (if l_status l \<noteq> []
        then bump (endings st) (if l_status l \<in> set ending_keys then l_status l else ''other'')
        else endings st)"
  "timeout_wins (apply_locals l st)
     = timeout_wins st
       + (if (l_status l = ''timeout'' \<or> l_status l = ''outoftime'') \<and> l_outcome l = Some Win
          then 1 else 0)"
  "timeout_losses (apply_locals l st)
     = timeout_losses st
       + (if (l_status l = ''timeout'' \<or> l_status l = ''outoftime'') \<and> l_outcome l = Some Loss
          then 1 else 0)"
  by (auto simp add: apply_locals_def count_ending_def Let_def split: option.splits)

lemma apply_locals_opponent:
  "opponent_rating_sum (apply_locals l st)
     = opponent_rating_sum st + (case rated l of None \<Rightarrow> 0 | Some r \<Rightarrow> r)"
  "opponent_rating_count (apply_locals l st)
     = opponent_rating_count st + (case rated l of None \<Rightarrow> 0 | Some r \<Rightarrow> 1)"
  "opponent_by_speed (apply_locals l st)
     = (case rated l of
          None \<Rightarrow> opponent_by_speed st
        | Some r \<Rightarrow> if key_in (l_speed l) speed_keys
                    then add_rating (opponent_by_speed st) (str_of (l_speed l)) r
                    else opponent_by_speed st)"
  "opponent_hist (apply_locals l st)
     = (case rated l of
          None \<Rightarrow> opponent_hist st
        | Some r \<Rightarrow> (opponent_hist st)
            ((r div 100) * 100 \<mapsto>
               (case opponent_hist st ((r div 100) * 100) of None \<Rightarrow> 0 | Some n \<Rightarrow> n) + 1))"
  "top_wins (apply_locals l st)
     = (case win_entry l of None \<Rightarrow> top_wins st | Some t \<Rightarrow> push_top_win t (top_wins st))"
  by (simp_all add: apply_locals_def count_opponent_def rated_def win_entry_def Let_def
      split: option.splits)


section \<open>The loop as a fold over the records\<close>

lemma fold_apply_locals_total_upd:
  "fold apply_locals ls (st\<lparr> total := n \<rparr>) = (fold apply_locals ls st)\<lparr> total := n \<rparr>"
  by (induction ls arbitrary: st) (simp_all add: apply_locals_total_upd)

lemma fold_apply_locals_total [simp]: "total (fold apply_locals ls st) = total st"
  by (induction ls arbitrary: st) simp_all

lemma ingest_line_Inr:
  "ingest_line py username raw_line st = Inr st' \<longleftrightarrow>
     line_ok py username raw_line
     \<and> st' = (fold apply_locals (line_locals py username raw_line) st)
              \<lparr> total := total st + (if strip raw_line = [] then 0 else 1) \<rparr>"
  by (auto simp: ingest_line_def line_ok_def line_locals_def ingest_game_locals
      apply_locals_total_upd split: option.splits sum.splits)

lemma ingest_lines_Inr:
  "ingest_lines py username lines st = Inr st' \<longleftrightarrow>
     (\<forall>raw_line \<in> set lines. line_ok py username raw_line)
     \<and> st' = (fold apply_locals (games py username lines) st)
              \<lparr> total := total st + counted lines \<rparr>"
proof (induction lines arbitrary: st)
  case Nil
  then show ?case
    by (auto simp: games_def counted_def)
next
  case (Cons raw_line rest)
  show ?case
  proof (cases "ingest_line py username raw_line st")
    case (Inl e)
    then have "\<not> line_ok py username raw_line"
      using ingest_line_Inr [of py username raw_line st] by auto
    with Inl show ?thesis by simp
  next
    case (Inr st1)
    then have ok: "line_ok py username raw_line"
      and st1: "st1 = (fold apply_locals (line_locals py username raw_line) st)
                        \<lparr> total := total st + (if strip raw_line = [] then 0 else 1) \<rparr>"
      using ingest_line_Inr [of py username raw_line st st1] by auto
    have "ingest_lines py username (raw_line # rest) st = ingest_lines py username rest st1"
      using Inr by simp
    then show ?thesis
      using Cons.IH [of st1] ok
      by (auto simp: st1 games_def counted_def fold_apply_locals_total_upd)
  qed
qed


section \<open>What the final pass leaves alone\<close>

lemma finalize_frame:
  assumes "finalize py st = Inr st'"
  shows
    "total st' = total st"
    "speed_counts st' = speed_counts st"
    "other_speeds st' = other_speeds st"
    "results st' = results st"
    "color_results st' = color_results st"
    "endings st' = endings st"
    "timeout_wins st' = timeout_wins st"
    "timeout_losses st' = timeout_losses st"
    "opponent_rating_sum st' = opponent_rating_sum st"
    "opponent_rating_count st' = opponent_rating_count st"
    "opponent_by_speed st' = opponent_by_speed st"
    "opponent_hist st' = opponent_hist st"
    "top_wins st' = top_wins st"
    "month_counts st' = month_counts st"
    "wday_counts st' = wday_counts st"
    "hour_counts st' = hour_counts st"
  using assms
  by (auto simp: finalize_def Let_def split: sum.splits prod.splits if_splits)

lemma fetch_game_stats_Inr:
  "fetch_game_stats py username lines = Inr st \<longleftrightarrow>
     (\<exists>st0. ingest_lines py username lines init_state = Inr st0 \<and> finalize py st0 = Inr st)"
  by (simp add: fetch_game_stats_def split: sum.splits)

section \<open>Calendar fields and the locals of a record\<close>

lemma month_of_days_range: "1 \<le> month_of_days d \<and> month_of_days d \<le> 12"
proof -
  have len: "length (takeWhile P month_starts) \<le> 11" for P
    using length_takeWhile_le [of P month_starts] by (simp add: month_starts_def)
  have pick: "1 \<le> (if mp < 10 then mp + 3 else mp - 9) \<and> (if mp < 10 then mp + 3 else mp - 9) \<le> 12"
    if "mp \<le> 11" for mp :: nat
    using that by auto
  show ?thesis
    unfolding month_of_days_def Let_def by (rule pick) (rule len)
qed

lemma utc_fields_range:
  assumes "utc_fields ts = Inr (month, weekday, hour)"
  shows "1 \<le> month \<and> month \<le> 12 \<and> weekday < 7 \<and> hour < 24"
proof -
  from assms have m: "month = month_of_days (ts div 1000 div 86400)"
    and w: "weekday = nat ((ts div 1000 div 86400 + 3) mod 7)"
    and h: "hour = nat ((ts div 1000 mod 86400) div 3600)"
    by (auto simp: utc_fields_def Let_def split: if_splits)
  have "weekday < 7"
    unfolding w by simp
  moreover have "hour < 24"
    unfolding h using pos_mod_bound [of 86400 "ts div 1000"] by simp
  ultimately show ?thesis
    using month_of_days_range [of "ts div 1000 div 86400"] by (simp add: m)
qed

lemma map_sum_Some_Inr: "map_sum id Some x = Inr y \<Longrightarrow> \<exists>c. x = Inr c \<and> y = Some c"
  by (cases x) auto

lemma game_locals_Inr:
  assumes "game_locals py username (JObject game) = Inr l"
  shows "l_ts l = get_ts game"
    and "l_speed l = get game ''speed''"
    and "l_cal l = (if is_int (get_ts game)
                    then (case utc_fields (int_of (get_ts game)) of Inr cal \<Rightarrow> Some cal | Inl e \<Rightarrow> None)
                    else None)"
    and "is_int (get_ts game) \<Longrightarrow> \<exists>cal. utc_fields (int_of (get_ts game)) = Inr cal"
    and "identify py username game = Inr (l_white l, l_black l, l_color l)"
    and "l_outcome l = map_option (\<lambda>c. derive_outcome c (get game ''winner'')
                          (get_status py game \<in> set draw_statuses)) (l_color l)"
  using assms
  by (auto simp: game_locals_def Let_def dest!: map_sum_Some_Inr
      split: sum.splits prod.splits if_splits)

lemma game_locals_not_object:
  "game_locals py username decoded = Inr l \<Longrightarrow> \<exists>game. decoded = JObject game"
  by (cases decoded) (simp_all add: game_locals_def)

lemma ingest_game_Inr:
  "ingest_game py username decoded st = Inr st' \<longleftrightarrow>
     (\<exists>l. game_locals py username decoded = Inr l \<and> st' = apply_locals l st)"
  by (auto simp: ingest_game_locals split: sum.splits)

section \<open>Blank and undecodable lines\<close>

lemma strip_blank: "set s \<subseteq> whitespace \<Longrightarrow> strip s = []"
proof -
  assume "set s \<subseteq> whitespace"
  then have "\<forall>c \<in> set s. c \<in> whitespace"
    by blast
  then have blank: "dropWhile (\<lambda>c. c \<in> whitespace) s = []"
    by (simp only: dropWhile_eq_Nil_conv)
  show ?thesis
    by (simp only: strip_def blank rev.simps dropWhile.simps)
qed

text \<open>
  C10. A line that is empty or holds only whitespace leaves the whole accumulator as it
  was, \<open>total\<close> included: the loop passes over it before the counter is touched.
\<close>

theorem blank_line_leaves_state:
  "set raw_line \<subseteq> whitespace \<Longrightarrow> ingest_line py username raw_line st = Inr st"
  by (simp add: ingest_line_def strip_blank)

theorem blank_line_leaves_state_witness:
  "set blank_line \<subseteq> whitespace
   \<and> ingest_line sample_py ''alice'' blank_line init_state = Inr init_state
   \<and> ingest_line sample_py ''alice'' [] init_state = Inr init_state"
proof -
  have blank: "set blank_line \<subseteq> whitespace"
    by (simp add: blank_line_def whitespace_def)
  have empty: "set ([] :: string) \<subseteq> whitespace"
    by simp
  show ?thesis
    using blank blank_line_leaves_state [OF blank] blank_line_leaves_state [OF empty]
    by simp
qed

text \<open>
  C9. A line that is not blank and that the decoder rejects with
  \<^verbatim>\<open>UnicodeDecodeError\<close> or \<^verbatim>\<open>JSONDecodeError\<close> adds one to \<open>total\<close> and changes
  nothing else, neither a statistic nor a buffer; no exception leaves the loop body,
  and the loop goes on with the lines that follow from exactly that state.
\<close>

theorem undecodable_line_counted:
  "strip raw_line \<noteq> [] \<Longrightarrow> py_loads py raw_line = Inr None \<Longrightarrow>
   ingest_line py username raw_line st = Inr (st\<lparr> total := total st + 1 \<rparr>)
   \<and> ingest_lines py username (raw_line # rest) st
       = ingest_lines py username rest (st\<lparr> total := total st + 1 \<rparr>)"
  by (simp add: ingest_line_def)

lemma strip_garbled: "strip garbled_line \<noteq> []"
  by (simp add: strip_def garbled_line_def whitespace_def)

lemma loads_garbled: "py_loads sample_py garbled_line = Inr None"
  by code_simp

theorem undecodable_line_counted_witness:
  "strip garbled_line \<noteq> [] \<and> py_loads sample_py garbled_line = Inr None
   \<and> ingest_line sample_py ''alice'' garbled_line init_state
       = Inr (init_state\<lparr> total := 1 \<rparr>)
   \<and> ingest_lines sample_py ''alice'' [garbled_line, blank_line] init_state
       = Inr (init_state\<lparr> total := 1 \<rparr>)"
proof -
  have blank: "set blank_line \<subseteq> whitespace"
    by (simp add: blank_line_def whitespace_def)
  have zero: "total init_state = 0"
    by (simp add: init_state_def)
  show ?thesis
    using undecodable_line_counted [OF strip_garbled loads_garbled, of "''alice''" init_state "[blank_line]"]
      strip_garbled loads_garbled zero
    by (simp add: ingest_line_def strip_blank [OF blank])
qed

text \<open>
  C9 as worded, for every line that is not valid JSON, fails on two such lines. A line
  of whitespace is rejected by the decoder when it is asked, but the loop passes over
  it before the counter, so \<open>total\<close> stays 0. A line of two thousand opening
  brackets is not blank and is no JSON document; the decoder leaves it with
  \<^verbatim>\<open>RecursionError\<close>, which the loop does not catch, so the exception leaves the
  function.
\<close>

theorem uncounted_line_counterexample:
  "py_loads sample_py blank_line = Inr None
   \<and> map_sum id total (ingest_line sample_py ''alice'' blank_line init_state) = Inr 0
   \<and> strip deep_line \<noteq> []
   \<and> py_loads sample_py deep_line = Inl RecursionError
   \<and> map_sum id total (ingest_line sample_py ''alice'' deep_line init_state)
       = Inl RecursionError
   \<and> map_sum id total (fetch_game_stats sample_py ''alice'' [early_win_line, deep_line])
       = Inl RecursionError"
  by code_simp

section \<open>Totals\<close>

lemma key_in_speed_keys:
  "key_in speed speed_keys \<Longrightarrow>
     str_of speed = ''bullet'' \<or> str_of speed = ''blitz'' \<or> str_of speed = ''rapid''
     \<or> str_of speed = ''classical''"
  by (cases speed) (auto simp: speed_keys_def)

lemma speed_sum_apply_locals: "speed_sum (apply_locals l st) = speed_sum st + 1"
proof (cases "key_in (l_speed l) speed_keys")
  case True
  from key_in_speed_keys [OF True] show ?thesis
    by (elim disjE) (simp_all add: speed_sum_def apply_locals_speed True bump_def)
next
  case False
  then show ?thesis
    by (simp add: speed_sum_def apply_locals_speed)
qed

lemma speed_sum_fold: "speed_sum (fold apply_locals ls st) = speed_sum st + length ls"
  by (induction ls arbitrary: st) (simp_all add: speed_sum_apply_locals)

lemma length_games:
  "\<forall>raw_line \<in> set lines. line_ok py username raw_line \<Longrightarrow>
   length (games py username lines)
     + length (filter (\<lambda>raw_line. strip raw_line \<noteq> [] \<and> py_loads py raw_line = Inr None) lines)
   = counted lines"
  by (induction lines)
    (auto simp: games_def counted_def line_ok_def line_locals_def split: option.splits sum.splits)

text \<open>
  C2. Whenever \<^verbatim>\<open>fetch_game_stats\<close> returns, whatever the keys of the timeline and
  whatever the library sort does with them, \<open>total\<close> is the number of lines that were
  offered to the loop body, that is, of the lines that are not blank, the undecodable
  ones included; and the four speed counters and \<open>other_speeds\<close> add up to \<open>total\<close>
  less the number of offered lines that the decoder rejected.
\<close>

theorem total_consistency:
  assumes "fetch_game_stats py username lines = Inr st"
  shows "total st = length (filter (\<lambda>raw_line. strip raw_line \<noteq> []) lines)
    \<and> speed_counts st ''bullet'' + speed_counts st ''blitz'' + speed_counts st ''rapid''
        + speed_counts st ''classical'' + other_speeds st
      = total st
        - length (filter (\<lambda>raw_line. strip raw_line \<noteq> [] \<and> py_loads py raw_line = Inr None) lines)"
proof -
  from assms obtain st0 where run: "ingest_lines py username lines init_state = Inr st0"
    and fin: "finalize py st0 = Inr st"
    by (auto simp: fetch_game_stats_Inr)
  from run have ok: "\<forall>raw_line \<in> set lines. line_ok py username raw_line"
    and st0: "st0 = (fold apply_locals (games py username lines) init_state)
                      \<lparr> total := total init_state + counted lines \<rparr>"
    by (auto simp: ingest_lines_Inr)
  have total0: "total st0 = counted lines"
    by (simp add: st0 init_state_def)
  have "speed_sum st0 = speed_sum (fold apply_locals (games py username lines) init_state)"
    by (simp add: st0 speed_sum_def)
  also have "\<dots> = length (games py username lines)"
    by (simp add: speed_sum_fold) (simp add: speed_sum_def init_state_def)
  finally have sum0: "speed_sum st0 = length (games py username lines)" .
  have "speed_sum st = speed_sum st0" "total st = total st0"
    using finalize_frame [OF fin] by (simp_all add: speed_sum_def)
  with total0 sum0 length_games [OF ok] show ?thesis
    by (simp add: speed_sum_def counted_def)
qed

theorem total_consistency_witness:
  "(\<exists>st. fetch_game_stats sample_py ''alice''
            [tie_line_1, garbled_line, blank_line, zero_created_line] = Inr st
     \<and> total st = 3
     \<and> speed_counts st ''bullet'' + speed_counts st ''blitz'' + speed_counts st ''rapid''
         + speed_counts st ''classical'' + other_speeds st = 2)
   \<and> (\<exists>st. fetch_game_stats sample_py ''alice''
            [win_at_5_line, nan_loss_line, garbled_line, win_at_3_line] = Inr st
     \<and> total st = 4
     \<and> speed_counts st ''bullet'' + speed_counts st ''blitz'' + speed_counts st ''rapid''
         + speed_counts st ''classical'' + other_speeds st = 3)"
proof -
  have "\<not> isl (fetch_game_stats sample_py ''alice''
            [tie_line_1, garbled_line, blank_line, zero_created_line])"
    by code_simp
  then obtain st where run: "fetch_game_stats sample_py ''alice''
            [tie_line_1, garbled_line, blank_line, zero_created_line] = Inr st"
    by (cases "fetch_game_stats sample_py ''alice''
            [tie_line_1, garbled_line, blank_line, zero_created_line]") auto
  have offered: "length (filter (\<lambda>raw_line. strip raw_line \<noteq> [])
            [tie_line_1, garbled_line, blank_line, zero_created_line]) = 3"
    by code_simp
  have rejected: "length (filter (\<lambda>raw_line. strip raw_line \<noteq> [] \<and> py_loads sample_py raw_line = Inr None)
            [tie_line_1, garbled_line, blank_line, zero_created_line]) = 1"
    by code_simp
  have first: "\<exists>st. fetch_game_stats sample_py ''alice''
            [tie_line_1, garbled_line, blank_line, zero_created_line] = Inr st
     \<and> total st = 3
     \<and> speed_counts st ''bullet'' + speed_counts st ''blitz'' + speed_counts st ''rapid''
         + speed_counts st ''classical'' + other_speeds st = 2"
    using total_consistency [OF run] run by (simp only: offered rejected) simp
  have "\<not> isl (fetch_game_stats sample_py ''alice''
            [win_at_5_line, nan_loss_line, garbled_line, win_at_3_line])"
    by code_simp
  then obtain st2 where run2: "fetch_game_stats sample_py ''alice''
            [win_at_5_line, nan_loss_line, garbled_line, win_at_3_line] = Inr st2"
    by (cases "fetch_game_stats sample_py ''alice''
            [win_at_5_line, nan_loss_line, garbled_line, win_at_3_line]") auto
  have offered2: "length (filter (\<lambda>raw_line. strip raw_line \<noteq> [])
            [win_at_5_line, nan_loss_line, garbled_line, win_at_3_line]) = 4"
    by code_simp
  have rejected2: "length (filter (\<lambda>raw_line. strip raw_line \<noteq> [] \<and> py_loads sample_py raw_line = Inr None)
            [win_at_5_line, nan_loss_line, garbled_line, win_at_3_line]) = 1"
    by code_simp
  have second: "\<exists>st. fetch_game_stats sample_py ''alice''
            [win_at_5_line, nan_loss_line, garbled_line, win_at_3_line] = Inr st
     \<and> total st = 4
     \<and> speed_counts st ''bullet'' + speed_counts st ''blitz'' + speed_counts st ''rapid''
         + speed_counts st ''classical'' + other_speeds st = 3"
    using total_consistency [OF run2] run2 by (simp only: offered2 rejected2) simp
  from first second show ?thesis
    by (rule conjI)
qed
section \<open>The final pass\<close>

lemma sort_key_short: "length xs < 2 \<Longrightarrow> sort_key f xs = xs"
  by (cases xs) auto

lemma sort_timeline_numbers:
  "list_all (\<lambda>e. num_key (fst e) \<noteq> None) entries \<Longrightarrow>
     sort_timeline py entries = Inr (sort_key (\<lambda>e. key_value (fst e)) entries)"
  by (simp add: sort_timeline_def sort_key_short)

lemma finalize_timeline:
  "finalize py st = Inr st' \<Longrightarrow> timeline st \<noteq> [] \<Longrightarrow>
     sort_timeline py (timeline st) = Inr (timeline st')"
  by (auto simp: finalize_def Let_def split: sum.splits prod.splits if_splits)

lemma finalize_timeline_empty:
  "finalize py st = Inr st' \<Longrightarrow> timeline st = [] \<Longrightarrow> timeline st' = []"
  by (auto simp: finalize_def Let_def split: sum.splits prod.splits if_splits)

lemma finalize_timeline_numbers:
  assumes "finalize py st = Inr st'" and "list_all (\<lambda>e. num_key (fst e) \<noteq> None) (timeline st)"
  shows "timeline st' = sort_key (\<lambda>e. key_value (fst e)) (timeline st)"
proof (cases "timeline st = []")
  case True
  with finalize_timeline_empty [OF assms(1)] show ?thesis by simp
next
  case False
  from finalize_timeline [OF assms(1) False] sort_timeline_numbers [OF assms(2)]
  show ?thesis by simp
qed



lemma finalize_streaks:
  "finalize py st = Inr st' \<Longrightarrow> timeline st \<noteq> [] \<Longrightarrow>
     longest_win_streak st' = fst (walk_streaks (map snd (timeline st')))
     \<and> longest_loss_streak st' = fst (snd (walk_streaks (map snd (timeline st'))))"
  by (auto simp: finalize_def Let_def split: sum.splits prod.splits if_splits)

lemma finalize_streaks_empty:
  "finalize py st = Inr st' \<Longrightarrow> timeline st = [] \<Longrightarrow>
     longest_win_streak st' = longest_win_streak st
     \<and> longest_loss_streak st' = longest_loss_streak st"
  by (auto simp: finalize_def Let_def split: sum.splits prod.splits if_splits)

lemma sort_short: "length xs \<le> 1 \<Longrightarrow> sort xs = xs"
  by (cases xs) auto

lemma finalize_timestamps:
  "finalize py st = Inr st' \<Longrightarrow> timestamps st' = sort (timestamps st)"
  by (auto simp: finalize_def Let_def sort_short split: sum.splits prod.splits if_splits)

lemma finalize_gap:
  "finalize py st = Inr st' \<Longrightarrow>
     longest_gap_ms st' =
       (if 1 < length (timestamps st) then py_max (gaps (sort (timestamps st)))
        else longest_gap_ms st)"
  by (auto simp: finalize_def Let_def split: sum.splits prod.splits if_splits)

lemma py_max_Max:
  assumes "xs \<noteq> []"
  shows "py_max xs = Max (set xs)"
proof -
  from assms obtain x rest where xs: "xs = x # rest"
    by (cases xs) auto
  have "foldl max x rest = fold max rest x"
    by (simp add: foldl_conv_fold max.commute)
  moreover have "Max (set (x # rest)) = fold max rest x"
    by (rule Max.set_eq_fold)
  ultimately show ?thesis
    by (simp add: xs)
qed

lemma set_gaps: "set (gaps ts) = {ts ! Suc i - ts ! i | i. Suc i < length ts}"
proof -
  have "set (gaps ts) = (\<lambda>i. ts ! i - ts ! (i - 1)) ` {1 ..< length ts}"
    by (simp add: gaps_def)
  also have "\<dots> = {ts ! Suc i - ts ! i | i. Suc i < length ts}"
  proof (intro equalityI subsetI)
    fix d assume "d \<in> (\<lambda>i. ts ! i - ts ! (i - 1)) ` {1 ..< length ts}"
    then obtain i where i: "1 \<le> i" "i < length ts" and d: "d = ts ! i - ts ! (i - 1)"
      by auto
    then have "d = ts ! Suc (i - 1) - ts ! (i - 1)" "Suc (i - 1) < length ts"
      by simp_all
    then show "d \<in> {ts ! Suc i - ts ! i | i. Suc i < length ts}"
      by blast
  next
    fix d assume "d \<in> {ts ! Suc i - ts ! i | i. Suc i < length ts}"
    then obtain i where "Suc i < length ts" "d = ts ! Suc i - ts ! i"
      by blast
    then have "Suc i \<in> {1 ..< length ts}" "d = ts ! Suc i - ts ! (Suc i - 1)"
      by simp_all
    then show "d \<in> (\<lambda>i. ts ! i - ts ! (i - 1)) ` {1 ..< length ts}"
      by blast
  qed
  finally show ?thesis .
qed

lemma gaps_nonempty: "2 \<le> length ts \<Longrightarrow> gaps ts \<noteq> []"
  by (auto simp: gaps_def)

lemma fold_apply_locals_untouched:
  "longest_win_streak (fold apply_locals ls st) = longest_win_streak st"
  "longest_loss_streak (fold apply_locals ls st) = longest_loss_streak st"
  "longest_gap_ms (fold apply_locals ls st) = longest_gap_ms st"
  by (induction ls arbitrary: st) simp_all

lemma ingest_lines_untouched:
  assumes "ingest_lines py username lines init_state = Inr st"
  shows "longest_win_streak st = 0" "longest_loss_streak st = 0" "longest_gap_ms st = 0"
  using assms
  by (simp_all add: ingest_lines_Inr fold_apply_locals_untouched init_state_def)

text \<open>
  C7. Every final pass that returns, whatever the timeline holds, leaves the timestamp
  buffer sorted ascending, with the entries it had. With two or more entries \<open>longest_gap_ms\<close> is the greatest difference between
  neighbours of the sorted buffer; with fewer it keeps the value it had, which is the
  0 of the initial accumulator since no pass of the loop writes it. The timestamps
  1000, 5000, 6000 and 50000, delivered in any order, give 44000.
\<close>

theorem longest_gap_at_finalize:
  assumes "finalize py st = Inr st'"
  shows "sorted (timestamps st') \<and> mset (timestamps st') = mset (timestamps st)
    \<and> (2 \<le> length (timestamps st) \<longrightarrow>
         longest_gap_ms st'
           = Max {timestamps st' ! Suc i - timestamps st' ! i | i. Suc i < length (timestamps st')})
    \<and> (length (timestamps st) < 2 \<longrightarrow> longest_gap_ms st' = longest_gap_ms st)
    \<and> (length (timestamps st) < 2 \<and> ingest_lines py username lines init_state = Inr st \<longrightarrow>
         longest_gap_ms st' = 0)
    \<and> (mset (timestamps st) = mset [1000, 5000, 6000, 50000] \<longrightarrow> longest_gap_ms st' = 44000)"
proof -
  have ts': "timestamps st' = sort (timestamps st)"
    by (rule finalize_timestamps [OF assms])
  have gap: "longest_gap_ms st' =
      (if 1 < length (timestamps st) then py_max (gaps (sort (timestamps st)))
       else longest_gap_ms st)"
    by (rule finalize_gap [OF assms])
  have many: "longest_gap_ms st'
      = Max {timestamps st' ! Suc i - timestamps st' ! i | i. Suc i < length (timestamps st')}"
    if "2 \<le> length (timestamps st)"
  proof -
    from that have "2 \<le> length (sort (timestamps st))" by simp
    then have "py_max (gaps (sort (timestamps st))) = Max (set (gaps (sort (timestamps st))))"
      by (intro py_max_Max gaps_nonempty)
    with that show ?thesis
      by (simp add: gap ts' set_gaps)
  qed
  have example: "longest_gap_ms st' = 44000"
    if "mset (timestamps st) = mset [1000, 5000, 6000, 50000]"
  proof -
    have "sort (timestamps st) = [1000, 5000, 6000, 50000]"
      by (rule properties_for_sort) (simp_all add: that)
    moreover have "size (mset (timestamps st)) = size (mset [1000, 5000, 6000, 50000 :: int])"
      by (simp only: that)
    then have "length (timestamps st) = 4"
      by simp
    ultimately show ?thesis
      by (simp add: gap gaps_def upt_rec)
  qed
  have fresh: "longest_gap_ms st = 0"
    if "ingest_lines py username lines init_state = Inr st"
    by (rule ingest_lines_untouched(3) [OF that])
  show ?thesis
    using many example fresh by (simp add: ts' gap)
qed


theorem longest_gap_at_finalize_witness:
  "(\<exists>st'. finalize sample_py scrambled_timestamps = Inr st'
      \<and> 2 \<le> length (timestamps scrambled_timestamps)
      \<and> mset (timestamps scrambled_timestamps) = mset [1000, 5000, 6000, 50000]
      \<and> sorted (timestamps st') \<and> longest_gap_ms st' = 44000)
   \<and> (\<exists>st'. finalize sample_py single_timestamp = Inr st'
      \<and> length (timestamps single_timestamp) < 2
      \<and> longest_gap_ms st' = 0)
   \<and> (\<exists>st st'. ingest_lines sample_py ''alice'' [early_win_line] init_state = Inr st
      \<and> finalize sample_py st = Inr st'
      \<and> length (timestamps st) < 2
      \<and> longest_gap_ms st' = 0)
   \<and> (\<exists>st st'. ingest_lines sample_py ''alice'' [win_at_5_line, nan_loss_line, win_at_3_line]
                      init_state = Inr st
      \<and> finalize sample_py st = Inr st'
      \<and> timestamps st = [5, 3]
      \<and> sorted (timestamps st') \<and> mset (timestamps st') = mset (timestamps st))"
proof -
  have "map_sum id (\<lambda>st. length (timestamps st))
          (ingest_lines sample_py ''alice'' [early_win_line] init_state) = Inr 1"
    by code_simp
  then obtain st3 where run3: "ingest_lines sample_py ''alice'' [early_win_line] init_state = Inr st3"
    and one3: "length (timestamps st3) = 1"
    by (cases "ingest_lines sample_py ''alice'' [early_win_line] init_state") auto
  have "\<not> isl (fetch_game_stats sample_py ''alice'' [early_win_line])"
    by code_simp
  then obtain st3' where fin3: "finalize sample_py st3 = Inr st3'"
    using run3
    by (cases "fetch_game_stats sample_py ''alice'' [early_win_line]")
      (auto simp: fetch_game_stats_Inr)
  have third: "longest_gap_ms st3' = 0"
    using longest_gap_at_finalize [OF fin3, where username = "''alice''" and lines = "[early_win_line]"]
      run3 one3
    by simp
  have "map_sum id timestamps
          (ingest_lines sample_py ''alice'' [win_at_5_line, nan_loss_line, win_at_3_line] init_state)
        = Inr [5, 3]"
    by code_simp
  then obtain st4 where run4: "ingest_lines sample_py ''alice''
          [win_at_5_line, nan_loss_line, win_at_3_line] init_state = Inr st4"
    and ts4: "timestamps st4 = [5, 3]"
    by (cases "ingest_lines sample_py ''alice'' [win_at_5_line, nan_loss_line, win_at_3_line] init_state")
      auto
  have "\<not> isl (fetch_game_stats sample_py ''alice'' [win_at_5_line, nan_loss_line, win_at_3_line])"
    by code_simp
  then obtain st4' where fin4: "finalize sample_py st4 = Inr st4'"
    using run4
    by (cases "fetch_game_stats sample_py ''alice'' [win_at_5_line, nan_loss_line, win_at_3_line]")
      (auto simp: fetch_game_stats_Inr)
  from longest_gap_at_finalize [OF fin4]
  have fourth: "sorted (timestamps st4') \<and> mset (timestamps st4') = mset (timestamps st4)"
    by blast
  obtain st1 where fin1: "finalize sample_py scrambled_timestamps = Inr st1"
    by (simp add: finalize_def scrambled_timestamps_def init_state_def Let_def)
  obtain st2 where fin2: "finalize sample_py single_timestamp = Inr st2"
    by (simp add: finalize_def single_timestamp_def init_state_def Let_def)
  have ts1: "timestamps scrambled_timestamps = [5000, 50000, 1000, 6000]"
    by (simp add: scrambled_timestamps_def)
  have ts2: "timestamps single_timestamp = [1735689600000]"
    "longest_gap_ms single_timestamp = 0"
    by (simp_all add: single_timestamp_def init_state_def)
  have first_two: "(\<exists>st'. finalize sample_py scrambled_timestamps = Inr st'
      \<and> 2 \<le> length (timestamps scrambled_timestamps)
      \<and> mset (timestamps scrambled_timestamps) = mset [1000, 5000, 6000, 50000]
      \<and> sorted (timestamps st') \<and> longest_gap_ms st' = 44000)
   \<and> (\<exists>st'. finalize sample_py single_timestamp = Inr st'
      \<and> length (timestamps single_timestamp) < 2
      \<and> longest_gap_ms st' = 0)"
    using longest_gap_at_finalize [OF fin1] longest_gap_at_finalize [OF fin2] fin1 fin2
    by (simp add: ts1 ts2)
  from run3 fin3 one3 third have "\<exists>st st'. ingest_lines sample_py ''alice'' [early_win_line] init_state = Inr st
      \<and> finalize sample_py st = Inr st'
      \<and> length (timestamps st) < 2
      \<and> longest_gap_ms st' = 0"
    by auto
  moreover from run4 fin4 ts4 fourth
  have "\<exists>st st'. ingest_lines sample_py ''alice'' [win_at_5_line, nan_loss_line, win_at_3_line]
                      init_state = Inr st
      \<and> finalize sample_py st = Inr st'
      \<and> timestamps st = [5, 3]
      \<and> sorted (timestamps st') \<and> mset (timestamps st') = mset (timestamps st)"
    by blast
  ultimately show ?thesis
    using first_two by blast
qed
section \<open>Streaks\<close>


lemma run_at_end_Nil [simp]: "run_at_end x [] = 0"
  by (simp add: run_at_end_def)







lemma longest_run_unique: "longest_run x xs n \<Longrightarrow> longest_run x xs m \<Longrightarrow> n = m"
  by (auto simp: longest_run_def intro: antisym)






section \<open>Timestamps of a record\<close>

text \<open>
  C6, as the code has it. For a record that is a JSON object and passes through the loop
  body without an exception, the timestamp used is the value of \<^verbatim>\<open>createdAt\<close> when that
  value is truthy, and the value of \<^verbatim>\<open>lastMoveAt\<close> otherwise: a \<^verbatim>\<open>createdAt\<close> that is
  missing, \<^verbatim>\<open>null\<close>, \<^verbatim>\<open>0\<close>, \<^verbatim>\<open>false\<close> or empty falls through. When the value used is
  an integer (for Python a \<^verbatim>\<open>bool\<close> is one), it is appended to the timestamp buffer and
  the month, weekday and hour cells of its UTC calendar fields each grow by one, no
  other cell changing; the cells lie inside the three histograms. When it is not an
  integer, as when both timestamps are missing, the buffer and the three histograms
  stay as they were.
\<close>

theorem timestamp_of_record:
  assumes "ingest_game py username (JObject game) st = Inr st'"
  shows "get_ts game
           = (if truthy (get game ''createdAt'') then get game ''createdAt''
              else get game ''lastMoveAt'')
    \<and> (is_int (get_ts game) \<longrightarrow>
         (\<exists>month weekday hour.
            utc_fields (int_of (get_ts game)) = Inr (month, weekday, hour)
            \<and> 1 \<le> month \<and> month \<le> 12 \<and> weekday < 7 \<and> hour < 24
            \<and> timestamps st' = timestamps st @ [int_of (get_ts game)]
            \<and> month_counts st' = (month_counts st)[month - 1 := month_counts st ! (month - 1) + 1]
            \<and> wday_counts st' = (wday_counts st)[weekday := wday_counts st ! weekday + 1]
            \<and> hour_counts st' = (hour_counts st)[hour := hour_counts st ! hour + 1]
            \<and> (length (month_counts st) = 12 \<and> length (wday_counts st) = 7
                 \<and> length (hour_counts st) = 24 \<longrightarrow>
                 month_counts st' ! (month - 1) = month_counts st ! (month - 1) + 1
                 \<and> wday_counts st' ! weekday = wday_counts st ! weekday + 1
                 \<and> hour_counts st' ! hour = hour_counts st ! hour + 1)))
    \<and> (\<not> is_int (get_ts game) \<longrightarrow>
         timestamps st' = timestamps st \<and> month_counts st' = month_counts st
         \<and> wday_counts st' = wday_counts st \<and> hour_counts st' = hour_counts st)"
proof -
  from assms obtain l where l: "game_locals py username (JObject game) = Inr l"
    and st': "st' = apply_locals l st"
    by (auto simp: ingest_game_Inr)
  note facts = game_locals_Inr [OF l]
  have absent: "timestamps st' = timestamps st \<and> month_counts st' = month_counts st
      \<and> wday_counts st' = wday_counts st \<and> hour_counts st' = hour_counts st"
    if "\<not> is_int (get_ts game)"
    using that
    by (simp add: st' apply_locals_timestamps apply_locals_calendar timestamp_entry_def facts(3))
  have present: "\<exists>month weekday hour.
            utc_fields (int_of (get_ts game)) = Inr (month, weekday, hour)
            \<and> 1 \<le> month \<and> month \<le> 12 \<and> weekday < 7 \<and> hour < 24
            \<and> timestamps st' = timestamps st @ [int_of (get_ts game)]
            \<and> month_counts st' = (month_counts st)[month - 1 := month_counts st ! (month - 1) + 1]
            \<and> wday_counts st' = (wday_counts st)[weekday := wday_counts st ! weekday + 1]
            \<and> hour_counts st' = (hour_counts st)[hour := hour_counts st ! hour + 1]
            \<and> (length (month_counts st) = 12 \<and> length (wday_counts st) = 7
                 \<and> length (hour_counts st) = 24 \<longrightarrow>
                 month_counts st' ! (month - 1) = month_counts st ! (month - 1) + 1
                 \<and> wday_counts st' ! weekday = wday_counts st ! weekday + 1
                 \<and> hour_counts st' ! hour = hour_counts st ! hour + 1)"
    if int: "is_int (get_ts game)"
  proof -
    from facts(4) [OF int] obtain month weekday hour
      where cal: "utc_fields (int_of (get_ts game)) = Inr (month, weekday, hour)"
      by (metis prod_cases3)
    have in_range: "month - 1 < 12" "weekday < 7" "hour < 24"
      using utc_fields_range [OF cal] by auto
    have "l_cal l = Some (month, weekday, hour)"
      by (simp add: facts(3) int cal)
    then have "timestamps st' = timestamps st @ [int_of (get_ts game)]
        \<and> month_counts st' = (month_counts st)[month - 1 := month_counts st ! (month - 1) + 1]
        \<and> wday_counts st' = (wday_counts st)[weekday := wday_counts st ! weekday + 1]
        \<and> hour_counts st' = (hour_counts st)[hour := hour_counts st ! hour + 1]"
      by (simp add: st' apply_locals_timestamps apply_locals_calendar timestamp_entry_def
          facts(1) bump_at_def)
    then have "timestamps st' = timestamps st @ [int_of (get_ts game)]
        \<and> month_counts st' = (month_counts st)[month - 1 := month_counts st ! (month - 1) + 1]
        \<and> wday_counts st' = (wday_counts st)[weekday := wday_counts st ! weekday + 1]
        \<and> hour_counts st' = (hour_counts st)[hour := hour_counts st ! hour + 1]
        \<and> (length (month_counts st) = 12 \<and> length (wday_counts st) = 7
             \<and> length (hour_counts st) = 24 \<longrightarrow>
             month_counts st' ! (month - 1) = month_counts st ! (month - 1) + 1
             \<and> wday_counts st' ! weekday = wday_counts st ! weekday + 1
             \<and> hour_counts st' ! hour = hour_counts st ! hour + 1)"
      using in_range by simp
    with cal utc_fields_range [OF cal] show ?thesis
      by blast
  qed
  show ?thesis
    using absent present by (simp add: get_ts_def py_or_def)
qed

theorem timestamp_of_record_witness:
  "(\<exists>st'. ingest_game sample_py ''alice'' (JObject early_win_fields) init_state = Inr st'
      \<and> is_int (get_ts early_win_fields)
      \<and> utc_fields (int_of (get_ts early_win_fields)) = Inr (1, 2, 0)
      \<and> timestamps st' = [1735689600000]
      \<and> month_counts st' = [1, 0, 0, 0, 0, 0, 0, 0, 0, 0, 0, 0]
      \<and> wday_counts st' = [0, 0, 1, 0, 0, 0, 0]
      \<and> hour_counts st' ! 0 = 1)
   \<and> (\<exists>st'. ingest_game sample_py ''alice'' (JObject zero_created_fields) init_state = Inr st'
      \<and> \<not> is_int (get_ts zero_created_fields)
      \<and> timestamps st' = [] \<and> month_counts st' = replicate 12 0)"
proof -
  have "\<not> isl (ingest_game sample_py ''alice'' (JObject early_win_fields) init_state)"
    by code_simp
  then obtain st1 where run1: "ingest_game sample_py ''alice'' (JObject early_win_fields) init_state = Inr st1"
    by (cases "ingest_game sample_py ''alice'' (JObject early_win_fields) init_state") auto
  have "\<not> isl (ingest_game sample_py ''alice'' (JObject zero_created_fields) init_state)"
    by code_simp
  then obtain st2 where run2: "ingest_game sample_py ''alice'' (JObject zero_created_fields) init_state = Inr st2"
    by (cases "ingest_game sample_py ''alice'' (JObject zero_created_fields) init_state") auto
  have ts1: "get_ts early_win_fields = JInt 1735689600000"
    by code_simp
  have cal1: "utc_fields 1735689600000 = Inr (1, 2, 0)"
    by code_simp
  have ts2: "get_ts zero_created_fields = JNull"
    by code_simp
  have init: "timestamps init_state = []" "month_counts init_state = replicate 12 0"
    "wday_counts init_state = replicate 7 0" "hour_counts init_state = replicate 24 0"
    by (simp_all add: init_state_def)
  from timestamp_of_record [OF run1] have
    "timestamps st1 = [1735689600000]
      \<and> month_counts st1 = [1, 0, 0, 0, 0, 0, 0, 0, 0, 0, 0, 0]
      \<and> wday_counts st1 = [0, 0, 1, 0, 0, 0, 0]
      \<and> hour_counts st1 ! 0 = 1"
    by (simp add: ts1 cal1 init numeral_eq_Suc)
  moreover from timestamp_of_record [OF run2] have
    "timestamps st2 = [] \<and> month_counts st2 = replicate 12 0"
    by (simp add: ts2 init)
  ultimately show ?thesis
    using run1 run2 by (simp add: ts1 ts2 cal1)
qed

text \<open>
  C6 as worded fails where \<^verbatim>\<open>createdAt\<close> is present and is the integer \<^verbatim>\<open>0\<close>: the
  record \<^verbatim>\<open>{"createdAt":0}\<close> carries a created timestamp, yet nothing is appended to
  the buffer and no histogram cell is incremented.
\<close>

theorem created_zero_counterexample:
  "get zero_created_fields ''createdAt'' = JInt 0
   \<and> is_int (get zero_created_fields ''createdAt'')
   \<and> map_sum id timestamps (ingest_game sample_py ''alice'' (JObject zero_created_fields) init_state)
       = Inr []
   \<and> map_sum id month_counts (ingest_game sample_py ''alice'' (JObject zero_created_fields) init_state)
       = Inr [0, 0, 0, 0, 0, 0, 0, 0, 0, 0, 0, 0]
   \<and> map_sum id wday_counts (ingest_game sample_py ''alice'' (JObject zero_created_fields) init_state)
       = Inr [0, 0, 0, 0, 0, 0, 0]
   \<and> map_sum id hour_counts (ingest_game sample_py ''alice'' (JObject zero_created_fields) init_state)
       = Inr (replicate 24 0)"
  by code_simp

section \<open>Outcome of a record\<close>

text \<open>
  C5. For a record that passes through the loop body and in which the subject has a
  colour, the outcome is decided in this order: a win when the recorded winner is the
  subject's colour; else a loss when the winner is a colour (then the other one); else a
  draw, in particular when the status is one of the drawing reasons or no winner is
  recorded. Exactly the counter of that outcome grows by one in \<open>results\<close>, exactly
  the counter of that colour and outcome grows by one in \<open>color_results\<close>, and the
  pair of the timestamp (or \<^verbatim>\<open>0\<close> when it is falsy) and the outcome is appended to the
  timeline.
\<close>

theorem outcome_of_identified_record:
  assumes "ingest_game py username (JObject game) st = Inr st'"
    and "identify py username game = Inr (white, black, Some c)"
  shows "\<exists>out.
      out = derive_outcome c (get game ''winner'') (get_status py game \<in> set draw_statuses)
    \<and> (get game ''winner'' = JString (color_name c) \<longrightarrow> out = Win)
    \<and> (get game ''winner'' \<noteq> JString (color_name c)
         \<and> (get game ''winner'' = JString ''white'' \<or> get game ''winner'' = JString ''black'')
         \<longrightarrow> out = Loss)
    \<and> (get game ''winner'' \<noteq> JString ''white'' \<and> get game ''winner'' \<noteq> JString ''black''
         \<and> (get_status py game \<in> set draw_statuses \<or> get game ''winner'' = JNull)
         \<longrightarrow> out = Draw)
    \<and> results st' out = results st out + 1
    \<and> (\<forall>other. other \<noteq> out \<longrightarrow> results st' other = results st other)
    \<and> color_results st' c out = color_results st c out + 1
    \<and> (\<forall>c' other. (c', other) \<noteq> (c, out) \<longrightarrow> color_results st' c' other = color_results st c' other)
    \<and> timeline st' = timeline st @ [(py_or (get_ts game) (JInt 0), out)]"
proof -
  from assms(1) obtain l where l: "game_locals py username (JObject game) = Inr l"
    and st': "st' = apply_locals l st"
    by (auto simp: ingest_game_Inr)
  note facts = game_locals_Inr [OF l]
  from facts(5) assms(2) have color: "l_color l = Some c"
    by simp
  define out where "out = derive_outcome c (get game ''winner'') (get_status py game \<in> set draw_statuses)"
  have outcome: "l_outcome l = Some out"
    by (simp add: facts(6) color out_def)
  have "results st' = bump (results st) out"
    "color_results st' = (color_results st)(c := bump (color_results st c) out)"
    "timeline st' = timeline st @ [(py_or (get_ts game) (JInt 0), out)]"
    by (simp_all add: st' apply_locals_results color outcome timeline_entry_def facts(1))
  moreover have "get game ''winner'' = JString (color_name c) \<longrightarrow> out = Win"
    "get game ''winner'' \<noteq> JString (color_name c)
         \<and> (get game ''winner'' = JString ''white'' \<or> get game ''winner'' = JString ''black'')
         \<longrightarrow> out = Loss"
    "get game ''winner'' \<noteq> JString ''white'' \<and> get game ''winner'' \<noteq> JString ''black''
         \<and> (get_status py game \<in> set draw_statuses \<or> get game ''winner'' = JNull)
         \<longrightarrow> out = Draw"
    by (cases c; simp add: out_def derive_outcome_def color_name_def)+
  ultimately show ?thesis
    using out_def by (intro exI [of _ out]) (simp add: bump_def)
qed


theorem outcome_of_identified_record_witness:
  "identify sample_py ''alice'' early_win_fields
     = Inr ([(''user'', JObject [(''id'', JString ''alice'')])], [(''rating'', JInt 1500)], Some White)
   \<and> get early_win_fields ''winner'' = JString (color_name White)
   \<and> (\<exists>st'. ingest_game sample_py ''alice'' (JObject early_win_fields) init_state = Inr st'
        \<and> results st' Win = 1 \<and> results st' Loss = 0 \<and> results st' Draw = 0
        \<and> color_results st' White Win = 1 \<and> color_results st' Black Win = 0
        \<and> timeline st' = [(JInt 1735689600000, Win)])
   \<and> identify sample_py ''alice'' late_loss_fields
     = Inr ([(''rating'', JInt 1600)], [(''user'', JObject [(''id'', JString ''alice'')])], Some Black)
   \<and> get late_loss_fields ''winner'' = JString ''white''
   \<and> (\<exists>st'. ingest_game sample_py ''alice'' (JObject late_loss_fields) init_state = Inr st'
        \<and> results st' Loss = 1 \<and> results st' Win = 0
        \<and> color_results st' Black Loss = 1
        \<and> timeline st' = [(JInt 1738411200000, Loss)])
   \<and> identify sample_py ''alice'' drawn_fields
     = Inr ([(''user'', JObject [(''id'', JString ''alice'')])],
            [(''user'', JObject [(''id'', JString ''bob'')])], Some White)
   \<and> get drawn_fields ''winner'' = JNull
   \<and> get_status sample_py drawn_fields \<in> set draw_statuses
   \<and> (\<exists>st'. ingest_game sample_py ''alice'' (JObject drawn_fields) init_state = Inr st'
        \<and> results st' Draw = 1 \<and> results st' Win = 0
        \<and> color_results st' White Draw = 1
        \<and> timeline st' = [(JInt 0, Draw)])"
proof -
  have init: "results init_state = (\<lambda>out. 0)" "color_results init_state = (\<lambda>c out. 0)"
    "timeline init_state = []"
    by (simp_all add: init_state_def)
  have ident1: "identify sample_py ''alice'' early_win_fields
     = Inr ([(''user'', JObject [(''id'', JString ''alice'')])], [(''rating'', JInt 1500)], Some White)"
    by code_simp
  have winner1: "get early_win_fields ''winner'' = JString (color_name White)"
    by code_simp
  have "\<not> isl (ingest_game sample_py ''alice'' (JObject early_win_fields) init_state)"
    by code_simp
  then obtain st1 where run1: "ingest_game sample_py ''alice'' (JObject early_win_fields) init_state = Inr st1"
    by (cases "ingest_game sample_py ''alice'' (JObject early_win_fields) init_state") auto
  have ts1: "py_or (get_ts early_win_fields) (JInt 0) = JInt 1735689600000"
    by code_simp
  from outcome_of_identified_record [OF run1 ident1] obtain out1 where
    "get early_win_fields ''winner'' = JString (color_name White) \<longrightarrow> out1 = Win"
    and counts1: "results st1 out1 = results init_state out1 + 1"
      "\<forall>other. other \<noteq> out1 \<longrightarrow> results st1 other = results init_state other"
      "color_results st1 White out1 = color_results init_state White out1 + 1"
      "\<forall>c' other. (c', other) \<noteq> (White, out1) \<longrightarrow>
          color_results st1 c' other = color_results init_state c' other"
      "timeline st1 = timeline init_state @ [(py_or (get_ts early_win_fields) (JInt 0), out1)]"
    by blast
  with winner1 have out1: "out1 = Win"
    by simp
  from counts1 have first: "results st1 Win = 1 \<and> results st1 Loss = 0 \<and> results st1 Draw = 0
        \<and> color_results st1 White Win = 1 \<and> color_results st1 Black Win = 0
        \<and> timeline st1 = [(JInt 1735689600000, Win)]"
    by (simp add: out1 init ts1)
  have ident2: "identify sample_py ''alice'' late_loss_fields
     = Inr ([(''rating'', JInt 1600)], [(''user'', JObject [(''id'', JString ''alice'')])], Some Black)"
    by code_simp
  have winner2: "get late_loss_fields ''winner'' = JString ''white''"
    by code_simp
  have "\<not> isl (ingest_game sample_py ''alice'' (JObject late_loss_fields) init_state)"
    by code_simp
  then obtain st2 where run2: "ingest_game sample_py ''alice'' (JObject late_loss_fields) init_state = Inr st2"
    by (cases "ingest_game sample_py ''alice'' (JObject late_loss_fields) init_state") auto
  have ts2: "py_or (get_ts late_loss_fields) (JInt 0) = JInt 1738411200000"
    by code_simp
  from outcome_of_identified_record [OF run2 ident2] obtain out2 where
    "get late_loss_fields ''winner'' \<noteq> JString (color_name Black)
       \<and> (get late_loss_fields ''winner'' = JString ''white''
           \<or> get late_loss_fields ''winner'' = JString ''black'')
       \<longrightarrow> out2 = Loss"
    and counts2: "results st2 out2 = results init_state out2 + 1"
      "\<forall>other. other \<noteq> out2 \<longrightarrow> results st2 other = results init_state other"
      "color_results st2 Black out2 = color_results init_state Black out2 + 1"
      "timeline st2 = timeline init_state @ [(py_or (get_ts late_loss_fields) (JInt 0), out2)]"
    by blast
  with winner2 have out2: "out2 = Loss"
    by (simp add: color_name_def)
  from counts2 have second: "results st2 Loss = 1 \<and> results st2 Win = 0
        \<and> color_results st2 Black Loss = 1
        \<and> timeline st2 = [(JInt 1738411200000, Loss)]"
    by (simp add: out2 init ts2)
  have ident3: "identify sample_py ''alice'' drawn_fields
     = Inr ([(''user'', JObject [(''id'', JString ''alice'')])],
            [(''user'', JObject [(''id'', JString ''bob'')])], Some White)"
    by code_simp
  have winner3: "get drawn_fields ''winner'' = JNull"
    by code_simp
  have status3: "get_status sample_py drawn_fields \<in> set draw_statuses"
    by code_simp
  have "\<not> isl (ingest_game sample_py ''alice'' (JObject drawn_fields) init_state)"
    by code_simp
  then obtain st3 where run3: "ingest_game sample_py ''alice'' (JObject drawn_fields) init_state = Inr st3"
    by (cases "ingest_game sample_py ''alice'' (JObject drawn_fields) init_state") auto
  have ts3: "py_or (get_ts drawn_fields) (JInt 0) = JInt 0"
    by code_simp
  from outcome_of_identified_record [OF run3 ident3] obtain out3 where
    "get drawn_fields ''winner'' \<noteq> JString ''white'' \<and> get drawn_fields ''winner'' \<noteq> JString ''black''
       \<and> (get_status sample_py drawn_fields \<in> set draw_statuses \<or> get drawn_fields ''winner'' = JNull)
       \<longrightarrow> out3 = Draw"
    and counts3: "results st3 out3 = results init_state out3 + 1"
      "\<forall>other. other \<noteq> out3 \<longrightarrow> results st3 other = results init_state other"
      "color_results st3 White out3 = color_results init_state White out3 + 1"
      "timeline st3 = timeline init_state @ [(py_or (get_ts drawn_fields) (JInt 0), out3)]"
    by blast
  with winner3 have out3: "out3 = Draw"
    by simp
  from counts3 have third: "results st3 Draw = 1 \<and> results st3 Win = 0
        \<and> color_results st3 White Draw = 1
        \<and> timeline st3 = [(JInt 0, Draw)]"
    by (simp add: out3 init ts3)
  show ?thesis
    using ident1 winner1 run1 first ident2 winner2 run2 second ident3 winner3 status3 run3 third
    by blast
qed

section \<open>Results against total\<close>

lemma result_sum_apply_locals:
  "result_sum (apply_locals l st) = result_sum st + (if scored l then 1 else 0)"
proof (cases "l_color l")
  case None
  then show ?thesis
    by (simp add: result_sum_def scored_def apply_locals_results)
next
  case (Some c)
  show ?thesis
  proof (cases "l_outcome l")
    case None
    with Some show ?thesis
      by (simp add: result_sum_def scored_def apply_locals_results)
  next
    case (Some out)
    with \<open>l_color l = Some c\<close> show ?thesis
      by (cases out) (simp_all add: result_sum_def scored_def apply_locals_results bump_def)
  qed
qed

lemma result_sum_fold:
  "result_sum (fold apply_locals ls st) = result_sum st + length (filter scored ls)"
  by (induction ls arbitrary: st) (simp_all add: result_sum_apply_locals)

lemma line_scored:
  assumes "line_ok py username raw_line"
  shows "length (filter scored (line_locals py username raw_line))
           \<le> (if strip raw_line = [] then 0 else 1)
    \<and> (length (filter scored (line_locals py username raw_line))
           = (if strip raw_line = [] then 0 else 1)
        \<longleftrightarrow> (strip raw_line \<noteq> [] \<longrightarrow> identified py username raw_line))"
proof (cases "strip raw_line = []")
  case True
  then show ?thesis
    by (simp add: line_locals_def)
next
  case False
  from assms False obtain loaded where loaded: "py_loads py raw_line = Inr loaded"
    by (cases "py_loads py raw_line") (auto simp: line_ok_def)
  show ?thesis
  proof (cases loaded)
    case None
    with False loaded show ?thesis
      by (simp add: line_locals_def identified_def)
  next
    case (Some decoded)
    with assms False loaded obtain l where l: "game_locals py username decoded = Inr l"
      by (auto simp: line_ok_def split: sum.splits)
    from game_locals_not_object [OF l] obtain game where decoded: "decoded = JObject game"
      by blast
    note facts = game_locals_Inr [OF l [unfolded decoded]]
    have "scored l \<longleftrightarrow> l_color l \<noteq> None"
      by (auto simp: scored_def facts(6))
    also have "\<dots> \<longleftrightarrow> identified py username raw_line"
      using facts(5) by (auto simp: identified_def loaded Some decoded)
    finally have "scored l \<longleftrightarrow> identified py username raw_line" .
    with False loaded Some l show ?thesis
      by (simp add: line_locals_def)
  qed
qed

lemma games_scored:
  assumes "\<forall>raw_line \<in> set lines. line_ok py username raw_line"
  shows "length (filter scored (games py username lines)) \<le> counted lines
    \<and> (length (filter scored (games py username lines)) = counted lines
        \<longleftrightarrow> (\<forall>raw_line \<in> set lines. strip raw_line \<noteq> [] \<longrightarrow> identified py username raw_line))"
  using assms
proof (induction lines)
  case Nil
  then show ?case
    by (simp add: games_def counted_def)
next
  case (Cons raw_line rest)
  from Cons.prems have ok: "line_ok py username raw_line"
    and rest_ok: "\<forall>raw_line \<in> set rest. line_ok py username raw_line"
    by simp_all
  have split_games: "length (filter scored (games py username (raw_line # rest)))
      = length (filter scored (line_locals py username raw_line))
        + length (filter scored (games py username rest))"
    by (simp add: games_def)
  have split_counted: "counted (raw_line # rest)
      = (if strip raw_line = [] then 0 else 1) + counted rest"
    by (simp add: counted_def)
  from line_scored [OF ok] Cons.IH [OF rest_ok] show ?case
    unfolding split_games split_counted by auto
qed

text \<open>
  C8. Whenever \<^verbatim>\<open>fetch_game_stats\<close> returns, whatever the keys of the timeline and
  whatever the library sort does with them, wins, losses and draws together do not exceed
  \<open>total\<close>, and they equal it exactly when every line offered to the loop body (every
  line that is not blank) decodes to a record in which the subject is one of the two
  players.
\<close>

theorem outcome_conservation:
  assumes "fetch_game_stats py username lines = Inr st"
  shows "results st Win + results st Loss + results st Draw \<le> total st
    \<and> (results st Win + results st Loss + results st Draw = total st
        \<longleftrightarrow> (\<forall>raw_line \<in> set lines. strip raw_line \<noteq> [] \<longrightarrow>
              (\<exists>game white black c. py_loads py raw_line = Inr (Some (JObject game))
                 \<and> identify py username game = Inr (white, black, Some c))))"
proof -
  from assms obtain st0 where run: "ingest_lines py username lines init_state = Inr st0"
    and fin: "finalize py st0 = Inr st"
    by (auto simp: fetch_game_stats_Inr)
  from run have ok: "\<forall>raw_line \<in> set lines. line_ok py username raw_line"
    and st0: "st0 = (fold apply_locals (games py username lines) init_state)
                      \<lparr> total := total init_state + counted lines \<rparr>"
    by (auto simp: ingest_lines_Inr)
  have total: "total st = counted lines"
    using finalize_frame(1) [OF fin] by (simp add: st0 init_state_def)
  have "result_sum st = result_sum st0"
    using finalize_frame(4) [OF fin] by (simp add: result_sum_def)
  also have "\<dots> = result_sum (fold apply_locals (games py username lines) init_state)"
    by (simp add: st0 result_sum_def)
  also have "\<dots> = length (filter scored (games py username lines))"
    by (simp add: result_sum_fold) (simp add: result_sum_def init_state_def)
  finally have sum: "results st Win + results st Loss + results st Draw
      = length (filter scored (games py username lines))"
    by (simp add: result_sum_def)
  from games_scored [OF ok] show ?thesis
    unfolding sum total identified_def by simp
qed

theorem outcome_conservation_witness:
  "(\<exists>st. fetch_game_stats sample_py ''alice'' [tie_line_1, blank_line, late_loss_line] = Inr st
      \<and> results st Win + results st Loss + results st Draw \<le> total st
      \<and> results st Win + results st Loss + results st Draw = 2 \<and> total st = 2)
   \<and> (\<exists>st. fetch_game_stats sample_py ''alice'' [tie_line_1, garbled_line, zero_created_line] = Inr st
      \<and> results st Win + results st Loss + results st Draw \<le> total st
      \<and> results st Win + results st Loss + results st Draw = 1 \<and> total st = 3)
   \<and> (\<exists>st. fetch_game_stats sample_py ''alice'' [win_at_5_line, nan_loss_line, win_at_3_line] = Inr st
      \<and> results st Win + results st Loss + results st Draw \<le> total st
      \<and> results st Win + results st Loss + results st Draw = 3 \<and> total st = 3)"
proof -
  have "map_sum id (\<lambda>st. (results st Win + results st Loss + results st Draw, total st))
          (fetch_game_stats sample_py ''alice'' [tie_line_1, blank_line, late_loss_line])
        = Inr (2, 2)"
    by code_simp
  then obtain st1 where run1: "fetch_game_stats sample_py ''alice'' [tie_line_1, blank_line, late_loss_line] = Inr st1"
    and v1: "results st1 Win + results st1 Loss + results st1 Draw = 2" "total st1 = 2"
    by (cases "fetch_game_stats sample_py ''alice'' [tie_line_1, blank_line, late_loss_line]") auto
  have "map_sum id (\<lambda>st. (results st Win + results st Loss + results st Draw, total st))
          (fetch_game_stats sample_py ''alice'' [tie_line_1, garbled_line, zero_created_line])
        = Inr (1, 3)"
    by code_simp
  then obtain st2 where run2: "fetch_game_stats sample_py ''alice'' [tie_line_1, garbled_line, zero_created_line] = Inr st2"
    and v2: "results st2 Win + results st2 Loss + results st2 Draw = 1" "total st2 = 3"
    by (cases "fetch_game_stats sample_py ''alice'' [tie_line_1, garbled_line, zero_created_line]") auto
  have "map_sum id (\<lambda>st. (results st Win + results st Loss + results st Draw, total st))
          (fetch_game_stats sample_py ''alice'' [win_at_5_line, nan_loss_line, win_at_3_line])
        = Inr (3, 3)"
    by code_simp
  then obtain st3 where run3: "fetch_game_stats sample_py ''alice'' [win_at_5_line, nan_loss_line, win_at_3_line] = Inr st3"
    and v3: "results st3 Win + results st3 Loss + results st3 Draw = 3" "total st3 = 3"
    by (cases "fetch_game_stats sample_py ''alice'' [win_at_5_line, nan_loss_line, win_at_3_line]") auto
  from outcome_conservation [OF run1] outcome_conservation [OF run2] outcome_conservation [OF run3]
  have "results st1 Win + results st1 Loss + results st1 Draw \<le> total st1"
    "results st2 Win + results st2 Loss + results st2 Draw \<le> total st2"
    "results st3 Win + results st3 Loss + results st3 Draw \<le> total st3"
    by blast+
  with run1 run2 run3 v1 v2 v3 show ?thesis
    by simp
qed
section \<open>The three best wins\<close>

lemma insort_place_last:
  "sorted (map f ys) \<Longrightarrow> insort_key f x (place_last f t ys) = place_last f t (insort_key f x ys)"
  by (induction ys) auto

lemma sort_key_snoc: "sort_key f (xs @ [t]) = place_last f t (sort_key f xs)"
  by (induction xs) (simp_all add: insort_place_last)

lemma take_place_last: "take k (place_last f t (take k ys)) = take k (place_last f t ys)"
proof (induction ys arbitrary: k)
  case Nil
  then show ?case by simp
next
  case (Cons y ys)
  show ?case
  proof (cases k)
    case 0
    then show ?thesis by simp
  next
    case (Suc k')
    then show ?thesis
      using Cons.IH [of k'] by (cases k') auto
  qed
qed

lemma length_place_last [simp]: "length (place_last f t ys) = Suc (length ys)"
  by (induction ys) auto

lemma mset_place_last [simp]: "mset (place_last f t ys) = add_mset t (mset ys)"
  by (induction ys) auto

lemma place_last_end:
  "\<forall>y \<in> set ys. f y \<le> f t \<Longrightarrow> place_last f t ys = ys @ [t]"
  by (induction ys) auto

lemma place_last_before:
  "f t < f m \<Longrightarrow> place_last f t (ys @ [m]) = place_last f t ys @ [m]"
  by (induction ys) auto

lemma push_top_win_sorted: "sorted (map neg_rating tw) \<Longrightarrow> length tw \<le> 3 \<Longrightarrow>
    push_top_win t tw = take 3 (place_last neg_rating t tw)"
proof -
  assume tw: "sorted (map neg_rating tw)" and len: "length tw \<le> 3"
  have key: "(\<lambda>t. - fst t) = neg_rating"
    by (simp add: neg_rating_def fun_eq_iff)
  have s: "sort_key neg_rating (tw @ [t]) = place_last neg_rating t tw"
    by (simp add: sort_key_snoc sort_key_id_if_sorted tw)
  have "butlast xs = take 3 xs" if "length xs = 4" for xs :: "(int \<times> json \<times> json) list"
    using that by (simp add: butlast_conv_take)
  moreover have "length (place_last neg_rating t tw) \<le> 4"
    using len by simp
  ultimately show ?thesis
    unfolding push_top_win_def key Let_def s by (auto simp: not_less)
qed


lemma set_place_last [simp]: "set (place_last f t ys) = insert t (set ys)"
  by (induction ys) auto

lemma sorted_place_last:
  "sorted (map f ys) \<Longrightarrow> sorted (map f (place_last f t ys))"
  by (induction ys) (auto simp: place_last_end)

lemma desc_iff: "sorted_wrt (\<lambda>a b. fst b \<le> fst a) tw \<longleftrightarrow> sorted (map neg_rating tw)"
  by (simp add: sorted_map neg_rating_def)

lemma push_top_win_inv:
  assumes "length tw \<le> 3" and "sorted (map neg_rating tw)"
  shows "length (push_top_win t tw) \<le> 3 \<and> sorted (map neg_rating (push_top_win t tw))"
proof -
  have "sorted (map neg_rating (take 3 (place_last neg_rating t tw)))"
    using sorted_place_last [OF assms(2), of t] by (simp add: take_map [symmetric] sorted_wrt_take)
  then show ?thesis
    by (simp add: push_top_win_sorted [OF assms(2,1)])
qed

lemma apply_locals_top_wins_inv:
  assumes "length (top_wins st) \<le> 3" and "sorted (map neg_rating (top_wins st))"
  shows "length (top_wins (apply_locals l st)) \<le> 3
    \<and> sorted (map neg_rating (top_wins (apply_locals l st)))"
  using assms push_top_win_inv [OF assms]
  by (simp add: apply_locals_opponent split: option.splits)

lemma fold_apply_locals_top_wins_inv:
  "length (top_wins st) \<le> 3 \<Longrightarrow> sorted (map neg_rating (top_wins st)) \<Longrightarrow>
   length (top_wins (fold apply_locals ls st)) \<le> 3
    \<and> sorted (map neg_rating (top_wins (fold apply_locals ls st)))"
proof (induction ls arbitrary: st)
  case Nil
  then show ?case by simp
next
  case (Cons l ls)
  from apply_locals_top_wins_inv [OF Cons.prems, of l] Cons.IH [of "apply_locals l st"]
  show ?case by simp
qed

lemma ingest_lines_top_wins_inv:
  assumes "ingest_lines py username lines init_state = Inr st"
  shows "length (top_wins st) \<le> 3 \<and> sorted (map neg_rating (top_wins st))"
proof -
  from assms have "top_wins st = top_wins (fold apply_locals (games py username lines) init_state)"
    by (simp add: ingest_lines_Inr)
  moreover have "length (top_wins init_state) \<le> 3" "sorted (map neg_rating (top_wins init_state))"
    by (simp_all add: init_state_def)
  ultimately show ?thesis
    using fold_apply_locals_top_wins_inv by simp
qed

lemma push_lower:
  assumes "length tw = 3" and "sorted (map neg_rating tw)" and "\<forall>e \<in> set tw. r < fst e"
  shows "push_top_win (r, name, gid) tw = tw"
proof -
  have "\<forall>e \<in> set tw. neg_rating e \<le> neg_rating (r, name, gid)"
    using assms(3) by (auto simp: neg_rating_def)
  then have "place_last neg_rating (r, name, gid) tw = tw @ [(r, name, gid)]"
    by (rule place_last_end)
  then show ?thesis
    using assms(1,2) by (simp add: push_top_win_sorted)
qed

lemma push_higher:
  assumes "length tw = 3" and "sorted (map neg_rating tw)" and "fst (last tw) < r"
  shows "push_top_win (r, name, gid) tw = place_last neg_rating (r, name, gid) (butlast tw)"
proof -
  from assms(1) have tw: "tw = butlast tw @ [last tw]"
    by (cases tw rule: rev_cases) auto
  have "neg_rating (r, name, gid) < neg_rating (last tw)"
    using assms(3) by (simp add: neg_rating_def)
  then have "place_last neg_rating (r, name, gid) (butlast tw @ [last tw])
      = place_last neg_rating (r, name, gid) (butlast tw) @ [last tw]"
    by (rule place_last_before)
  then have "place_last neg_rating (r, name, gid) tw
      = place_last neg_rating (r, name, gid) (butlast tw) @ [last tw]"
    using tw by simp
  then show ?thesis
    using assms(1,2) by (simp add: push_top_win_sorted)
qed

lemma last_is_lowest:
  assumes "sorted (map neg_rating tw)" and "e \<in> set tw"
  shows "fst (last tw) \<le> fst e"
proof -
  from assms(2) have ne: "tw \<noteq> []" by auto
  then have tw: "tw = butlast tw @ [last tw]" by simp
  from assms(1) have "sorted (map neg_rating (butlast tw @ [last tw]))"
    using tw by simp
  then have "\<forall>x \<in> set (butlast tw). neg_rating x \<le> neg_rating (last tw)"
    by (simp add: sorted_append)
  moreover from assms(2) tw have "e \<in> set (butlast tw) \<or> e = last tw"
    by (metis Un_iff empty_iff empty_set set_ConsD set_append)
  ultimately show ?thesis
    by (auto simp: neg_rating_def)
qed

text \<open>
  C4. After every pass of the loop (in the accumulator left by any sequence of lines) and
  at the end of \<^verbatim>\<open>fetch_game_stats\<close>, \<open>top_wins\<close> holds at most three entries, sorted by
  rating in descending order; a pass either leaves it alone or pushes one entry.
  Pushing onto three sorted entries a win rated strictly below all of them leaves the
  list as it was. Pushing one rated strictly above the rating of the last entry, which
  is the lowest rating held, removes exactly that last entry and takes in the new one:
  the result again has three entries, sorted.
\<close>

theorem top_wins_bound_and_order:
  "(ingest_lines py username lines init_state = Inr st \<longrightarrow>
      length (top_wins st) \<le> 3 \<and> sorted_wrt (\<lambda>a b. fst b \<le> fst a) (top_wins st))
   \<and> (fetch_game_stats py username lines = Inr final \<longrightarrow>
      length (top_wins final) \<le> 3 \<and> sorted_wrt (\<lambda>a b. fst b \<le> fst a) (top_wins final))
   \<and> (ingest_game py username decoded st0 = Inr st1 \<longrightarrow>
      top_wins st1 = top_wins st0 \<or> (\<exists>t. top_wins st1 = push_top_win t (top_wins st0)))
   \<and> (length tw = 3 \<and> sorted_wrt (\<lambda>a b. fst b \<le> fst a) tw \<and> (\<forall>e \<in> set tw. r < fst e) \<longrightarrow>
      push_top_win (r, name, gid) tw = tw)
   \<and> (length tw = 3 \<and> sorted_wrt (\<lambda>a b. fst b \<le> fst a) tw \<and> fst (last tw) < r \<longrightarrow>
      (\<forall>e \<in> set tw. fst (last tw) \<le> fst e)
      \<and> mset (push_top_win (r, name, gid) tw) = mset tw - {#last tw#} + {#(r, name, gid)#}
      \<and> length (push_top_win (r, name, gid) tw) = 3
      \<and> sorted_wrt (\<lambda>a b. fst b \<le> fst a) (push_top_win (r, name, gid) tw))"
proof -
  have after_fetch: "length (top_wins final) \<le> 3 \<and> sorted (map neg_rating (top_wins final))"
    if "fetch_game_stats py username lines = Inr final"
  proof -
    from that obtain st0 where run: "ingest_lines py username lines init_state = Inr st0"
      and fin: "finalize py st0 = Inr final"
      by (auto simp: fetch_game_stats_Inr)
    from ingest_lines_top_wins_inv [OF run] finalize_frame(13) [OF fin] show ?thesis
      by simp
  qed
  have step: "top_wins st1 = top_wins st0 \<or> (\<exists>t. top_wins st1 = push_top_win t (top_wins st0))"
    if "ingest_game py username decoded st0 = Inr st1"
  proof -
    from that obtain l where st1: "st1 = apply_locals l st0"
      by (auto simp: ingest_game_Inr)
    show ?thesis
      by (cases "win_entry l") (auto simp: st1 apply_locals_opponent)
  qed
  have evict: "(\<forall>e \<in> set tw. fst (last tw) \<le> fst e)
      \<and> mset (push_top_win (r, name, gid) tw) = mset tw - {#last tw#} + {#(r, name, gid)#}
      \<and> length (push_top_win (r, name, gid) tw) = 3
      \<and> sorted (map neg_rating (push_top_win (r, name, gid) tw))"
    if len: "length tw = 3" and desc: "sorted (map neg_rating tw)" and higher: "fst (last tw) < r"
  proof -
    from len have tw: "tw = butlast tw @ [last tw]"
      by (cases tw rule: rev_cases) auto
    have "mset tw = add_mset (last tw) (mset (butlast tw))"
      by (subst tw) simp
    then have "mset (push_top_win (r, name, gid) tw) = mset tw - {#last tw#} + {#(r, name, gid)#}"
      by (simp add: push_higher [OF len desc higher])
    moreover have "length (push_top_win (r, name, gid) tw) = 3"
      by (simp add: push_higher [OF len desc higher] len)
    moreover have "sorted (map neg_rating (push_top_win (r, name, gid) tw))"
      using push_top_win_inv [of tw "(r, name, gid)"] len desc by simp
    ultimately show ?thesis
      using last_is_lowest [OF desc] by blast
  qed
  show ?thesis
    using ingest_lines_top_wins_inv [of py username lines st] after_fetch step
      push_lower [of tw r name gid] evict
    by (simp add: desc_iff)
qed

theorem top_wins_bound_and_order_witness:
  "(\<exists>st. ingest_lines sample_py ''alice'' [tie_line_1, tie_line_2, tie_line_3, tie_line_4] init_state
            = Inr st
       \<and> length (top_wins st) \<le> 3 \<and> sorted_wrt (\<lambda>a b. fst b \<le> fst a) (top_wins st))
   \<and> (\<exists>final. fetch_game_stats sample_py ''alice'' [tie_line_1, tie_line_2, tie_line_3, tie_line_4]
            = Inr final
       \<and> length (top_wins final) \<le> 3 \<and> sorted_wrt (\<lambda>a b. fst b \<le> fst a) (top_wins final))
   \<and> (\<exists>st1. ingest_game sample_py ''alice'' (tie_game ''g1'' 1735700000001) init_state = Inr st1
       \<and> top_wins st1 = push_top_win (1500, JString ''?'', JString ''g1'') (top_wins init_state))
   \<and> length podium = 3 \<and> sorted_wrt (\<lambda>a b. fst b \<le> fst a) podium
   \<and> list_all (\<lambda>e. 1400 < fst e) podium
   \<and> push_top_win (1400, JString ''dan'', JString ''p4'') podium = podium
   \<and> fst (last podium) < 1550
   \<and> mset (push_top_win (1550, JString ''eve'', JString ''p5'') podium)
       = mset podium - {#last podium#} + {#(1550, JString ''eve'', JString ''p5'')#}
   \<and> push_top_win (1550, JString ''eve'', JString ''p5'') podium
       = [(1700, JString ''ann'', JString ''p1''), (1600, JString ''ben'', JString ''p2''),
          (1550, JString ''eve'', JString ''p5'')]"
proof -
  have "\<not> isl (fetch_game_stats sample_py ''alice'' [tie_line_1, tie_line_2, tie_line_3, tie_line_4])"
    by code_simp
  then obtain final where fetch: "fetch_game_stats sample_py ''alice''
        [tie_line_1, tie_line_2, tie_line_3, tie_line_4] = Inr final"
    by (cases "fetch_game_stats sample_py ''alice'' [tie_line_1, tie_line_2, tie_line_3, tie_line_4]")
      auto
  then obtain st where run: "ingest_lines sample_py ''alice''
        [tie_line_1, tie_line_2, tie_line_3, tie_line_4] init_state = Inr st"
    by (auto simp: fetch_game_stats_Inr)
  have "map_sum id top_wins
          (ingest_game sample_py ''alice'' (tie_game ''g1'' 1735700000001) init_state)
        = Inr (push_top_win (1500, JString ''?'', JString ''g1'') (top_wins init_state))"
    by code_simp
  then obtain st1 where step: "ingest_game sample_py ''alice'' (tie_game ''g1'' 1735700000001)
        init_state = Inr st1"
    and pushed1: "top_wins st1 = push_top_win (1500, JString ''?'', JString ''g1'') (top_wins init_state)"
    by (cases "ingest_game sample_py ''alice'' (tie_game ''g1'' 1735700000001) init_state") auto
  have podium: "length podium = 3" "sorted_wrt (\<lambda>a b. fst b \<le> fst a) podium"
    "\<forall>e \<in> set podium. 1400 < fst e" "fst (last podium) < 1550"
    by (simp_all add: podium_def)
  have pushed: "push_top_win (1550, JString ''eve'', JString ''p5'') podium
       = [(1700, JString ''ann'', JString ''p1''), (1600, JString ''ben'', JString ''p2''),
          (1550, JString ''eve'', JString ''p5'')]"
    by code_simp
  note lower = top_wins_bound_and_order
    [of sample_py "''alice''" "[tie_line_1, tie_line_2, tie_line_3, tie_line_4]" st final
      "tie_game ''g1'' 1735700000001" init_state st1 podium 1400 "JString ''dan''" "JString ''p4''"]
  note higher = top_wins_bound_and_order
    [of sample_py "''alice''" "[tie_line_1, tie_line_2, tie_line_3, tie_line_4]" st final
      "tie_game ''g1'' 1735700000001" init_state st1 podium 1550 "JString ''eve''" "JString ''p5''"]
  from lower run fetch podium have
    "length (top_wins st) \<le> 3 \<and> sorted_wrt (\<lambda>a b. fst b \<le> fst a) (top_wins st)"
    "length (top_wins final) \<le> 3 \<and> sorted_wrt (\<lambda>a b. fst b \<le> fst a) (top_wins final)"
    "push_top_win (1400, JString ''dan'', JString ''p4'') podium = podium"
    by blast+
  moreover from higher podium have
    "mset (push_top_win (1550, JString ''eve'', JString ''p5'') podium)
       = mset podium - {#last podium#} + {#(1550, JString ''eve'', JString ''p5'')#}"
    by blast
  moreover have "list_all (\<lambda>e. 1400 < fst e) podium"
    by (simp add: podium_def)
  ultimately show ?thesis
    using run fetch step pushed1 podium(1,2,4) pushed by blast
qed

section \<open>Updates of different records commute\<close>

lemma bump_commute: "bump (bump f a) b = bump (bump f b) a"
  by (auto simp: bump_def fun_eq_iff)

lemma bump_color_commute:
  "(f(c := bump (f c) out))(c' := bump ((f(c := bump (f c) out)) c') out')
   = (f(c' := bump (f c') out'))(c := bump ((f(c' := bump (f c') out')) c) out)"
  by (auto simp: bump_def fun_eq_iff)

lemma add_rating_commute:
  "add_rating (add_rating f a r) b r' = add_rating (add_rating f b r') a r"
  by (auto simp: add_rating_def fun_eq_iff)

lemma hist_commute:
  "(h(a \<mapsto> (case h a of None \<Rightarrow> 0 | Some n \<Rightarrow> n) + 1))
     (b \<mapsto> (case (h(a \<mapsto> (case h a of None \<Rightarrow> 0 | Some n \<Rightarrow> n) + 1)) b of None \<Rightarrow> 0 | Some n \<Rightarrow> n) + (1::nat))
   = (h(b \<mapsto> (case h b of None \<Rightarrow> 0 | Some n \<Rightarrow> n) + 1))
     (a \<mapsto> (case (h(b \<mapsto> (case h b of None \<Rightarrow> 0 | Some n \<Rightarrow> n) + 1)) a of None \<Rightarrow> 0 | Some n \<Rightarrow> n) + 1)"
  by (auto simp: fun_eq_iff split: option.splits)

lemma bump_at_commute: "bump_at (bump_at xs i) j = bump_at (bump_at xs j) i"
proof (cases "i = j")
  case True
  then show ?thesis by simp
next
  case False
  then show ?thesis
    by (simp add: bump_at_def list_update_swap [of i j])
qed

lemma agree_refl [simp]: "agree s s"
  by (simp add: agree_def)

lemma agree_sym: "agree s t \<Longrightarrow> agree t s"
  by (simp add: agree_def)

lemma agree_trans: "agree s t \<Longrightarrow> agree t u \<Longrightarrow> agree s u"
  by (simp add: agree_def)

lemmas apply_locals_fields =
  apply_locals_timestamps apply_locals_calendar apply_locals_speed apply_locals_results
  apply_locals_endings apply_locals_opponent(1-4)

lemma apply_locals_agree:
  assumes "agree s t"
  shows "agree (apply_locals l s) (apply_locals l t)"
proof -
  note eqs = assms [unfolded agree_def]
  show ?thesis
    unfolding agree_def apply_locals_fields apply_locals_frame
    by (intro conjI) (simp_all only: eqs mset_append)
qed

lemma apply_locals_commute:
  "agree (apply_locals a (apply_locals b st)) (apply_locals b (apply_locals a st))"
  unfolding agree_def
proof (intro conjI)
  show "speed_counts (apply_locals a (apply_locals b st)) = speed_counts (apply_locals b (apply_locals a st))"
    by (simp add: apply_locals_fields bump_commute)
  show "results (apply_locals a (apply_locals b st)) = results (apply_locals b (apply_locals a st))"
    by (simp add: apply_locals_fields bump_commute split: option.splits)
  show "color_results (apply_locals a (apply_locals b st)) = color_results (apply_locals b (apply_locals a st))"
    by (simp add: apply_locals_fields split: option.splits) (auto simp: bump_def fun_eq_iff)
  show "endings (apply_locals a (apply_locals b st)) = endings (apply_locals b (apply_locals a st))"
    by (simp add: apply_locals_fields bump_commute)
  show "opponent_by_speed (apply_locals a (apply_locals b st)) = opponent_by_speed (apply_locals b (apply_locals a st))"
    by (simp add: apply_locals_fields add_rating_commute split: option.splits)
  show "opponent_hist (apply_locals a (apply_locals b st)) = opponent_hist (apply_locals b (apply_locals a st))"
    by (simp add: apply_locals_fields split: option.splits) (auto simp: fun_eq_iff)
  show "month_counts (apply_locals a (apply_locals b st)) = month_counts (apply_locals b (apply_locals a st))"
    by (simp add: apply_locals_fields bump_at_commute split: option.splits)
  show "wday_counts (apply_locals a (apply_locals b st)) = wday_counts (apply_locals b (apply_locals a st))"
    by (simp add: apply_locals_fields bump_at_commute split: option.splits)
  show "hour_counts (apply_locals a (apply_locals b st)) = hour_counts (apply_locals b (apply_locals a st))"
    by (simp add: apply_locals_fields bump_at_commute split: option.splits)
qed (simp_all add: apply_locals_fields split: option.splits)

section \<open>The loop over a permuted response\<close>

lemma fold_apply_locals_agree:
  "agree s t \<Longrightarrow> agree (fold apply_locals ls s) (fold apply_locals ls t)"
  by (induction ls arbitrary: s t) (simp_all add: apply_locals_agree)

lemma fold_move_front:
  "agree (fold apply_locals (as @ x # bs) st) (fold apply_locals (x # as @ bs) st)"
proof (induction as arbitrary: st)
  case Nil
  then show ?case by simp
next
  case (Cons a as)
  have "agree (fold apply_locals (as @ x # bs) (apply_locals a st))
              (fold apply_locals (as @ bs) (apply_locals x (apply_locals a st)))"
    using Cons.IH [of "apply_locals a st"] by simp
  moreover have "agree (fold apply_locals (as @ bs) (apply_locals x (apply_locals a st)))
                       (fold apply_locals (as @ bs) (apply_locals a (apply_locals x st)))"
    by (rule fold_apply_locals_agree) (rule apply_locals_commute)
  ultimately show ?case
    by (auto intro: agree_trans)
qed

lemma fold_permuted:
  "mset ls = mset ls' \<Longrightarrow> agree (fold apply_locals ls st) (fold apply_locals ls' st)"
proof (induction ls arbitrary: ls' st)
  case Nil
  then show ?case by simp
next
  case (Cons x ls)
  from Cons.prems have "x \<in> set ls'"
    by (metis list.set_intros(1) mset_eq_setD)
  then obtain as bs where ls': "ls' = as @ x # bs"
    by (auto simp: in_set_conv_decomp)
  with Cons.prems have "mset ls = mset (as @ bs)"
    by simp
  from Cons.IH [OF this, of "apply_locals x st"]
  have "agree (fold apply_locals (x # ls) st) (fold apply_locals (x # as @ bs) st)"
    by simp
  moreover have "agree (fold apply_locals (x # as @ bs) st) (fold apply_locals ls' st)"
    unfolding ls' by (rule agree_sym) (rule fold_move_front)
  ultimately show ?case
    by (rule agree_trans)
qed

lemma mset_games:
  "mset lines' = mset lines \<Longrightarrow> mset (games py username lines') = mset (games py username lines)"
proof -
  assume eq: "mset lines' = mset lines"
  have "mset (games py username ls)
      = (\<Sum>raw_line \<in># mset ls. mset (line_locals py username raw_line))" for ls
    by (induction ls) (simp_all add: games_def)
  then show ?thesis
    by (simp add: eq)
qed

lemma counted_permuted: "mset lines' = mset lines \<Longrightarrow> counted lines' = counted lines"
proof -
  assume eq: "mset lines' = mset lines"
  have "counted ls = size (filter_mset (\<lambda>raw_line. strip raw_line \<noteq> []) (mset ls))" for ls
    by (simp add: counted_def flip: mset_filter)
  then show ?thesis
    by (simp add: eq)
qed

section \<open>The retained wins as the head of a sorted list\<close>

lemma top3_Nil [simp]: "top3 [] = []"
  by (simp add: top3_def)

lemma push_top3: "push_top_win t (top3 es) = top3 (es @ [t])"
proof -
  have sorted: "sorted (map neg_rating (top3 es))"
    by (simp add: top3_def take_map [symmetric] sorted_wrt_take)
  have "push_top_win t (top3 es) = take 3 (place_last neg_rating t (top3 es))"
    by (rule push_top_win_sorted [OF sorted]) (simp add: top3_def)
  also have "\<dots> = take 3 (place_last neg_rating t (sort_key neg_rating es))"
    unfolding top3_def by (rule take_place_last)
  also have "\<dots> = top3 (es @ [t])"
    by (simp add: top3_def sort_key_snoc)
  finally show ?thesis .
qed

lemma entries_snoc_front:
  "win_entries (l # ls) = (case win_entry l of None \<Rightarrow> [] | Some t \<Rightarrow> [t]) @ win_entries ls"
  by (simp add: win_entries_def)

lemma top_wins_fold:
  "top_wins st = top3 es \<Longrightarrow> top_wins (fold apply_locals ls st) = top3 (es @ win_entries ls)"
proof (induction ls arbitrary: st es)
  case Nil
  then show ?case by (simp add: win_entries_def)
next
  case (Cons l ls)
  show ?case
  proof (cases "win_entry l")
    case None
    then have "top_wins (apply_locals l st) = top3 es"
      by (simp add: apply_locals_opponent Cons.prems)
    from Cons.IH [OF this] None show ?thesis
      by (simp add: entries_snoc_front)
  next
    case (Some t)
    then have "top_wins (apply_locals l st) = top3 (es @ [t])"
      by (simp add: apply_locals_opponent Cons.prems push_top3)
    from Cons.IH [OF this] Some show ?thesis
      by (simp add: entries_snoc_front)
  qed
qed

lemma top_wins_ingest_lines:
  assumes "ingest_lines py username lines init_state = Inr st"
  shows "top_wins st = top3 (win_entries (games py username lines))"
proof -
  have "top_wins init_state = top3 []"
    by (simp add: init_state_def)
  from top_wins_fold [OF this] assms show ?thesis
    by (simp add: ingest_lines_Inr)
qed

lemma length_line_locals: "length (line_locals py username raw_line) \<le> 1"
  by (simp add: line_locals_def split: option.splits sum.splits)

lemma length_entries: "length (win_entries ls) \<le> length ls"
  by (induction ls) (simp_all add: entries_snoc_front win_entries_def split: option.splits)

lemma top3_short: "length es \<le> 1 \<Longrightarrow> top3 es = es"
proof (cases es)
  case Nil
  then show ?thesis by simp
next
  case (Cons e rest)
  assume "length es \<le> 1"
  with Cons have "rest = []" by simp
  with Cons show ?thesis by (simp add: top3_def)
qed

lemma won_alone_entries:
  assumes "line_ok py username raw_line"
  shows "won_alone py username raw_line = win_entries (line_locals py username raw_line)"
proof -
  have "length (win_entries (line_locals py username raw_line)) \<le> 1"
    using length_entries [of "line_locals py username raw_line"]
      length_line_locals [of py username raw_line] by linarith
  then have short: "top3 (win_entries (line_locals py username raw_line))
      = win_entries (line_locals py username raw_line)"
    by (rule top3_short)
  from assms obtain st where st: "ingest_line py username raw_line init_state = Inr st"
    by (simp add: ingest_line_Inr)
  then have "ingest_lines py username [raw_line] init_state = Inr st"
    by simp
  from top_wins_ingest_lines [OF this]
  have "top_wins st = top3 (win_entries (line_locals py username raw_line))"
    by (simp add: games_def)
  with st short show ?thesis
    by (simp add: won_alone_def)
qed

lemma entries_append: "win_entries (xs @ ys) = win_entries xs @ win_entries ys"
  by (simp add: win_entries_def)

lemma won_alone_games:
  "\<forall>raw_line \<in> set lines. line_ok py username raw_line \<Longrightarrow>
     concat (map (won_alone py username) lines) = win_entries (games py username lines)"
proof (induction lines)
  case Nil
  then show ?case by (simp add: games_def win_entries_def)
next
  case (Cons raw_line rest)
  have "games py username (raw_line # rest)
      = line_locals py username raw_line @ games py username rest"
    by (simp add: games_def)
  with Cons show ?case
    by (simp add: won_alone_entries entries_append)
qed

lemma mset_entries: "mset ls' = mset ls \<Longrightarrow> mset (win_entries ls') = mset (win_entries ls)"
proof -
  assume eq: "mset ls' = mset ls"
  have "mset (win_entries xs)
      = (\<Sum>l \<in># mset xs. mset (case win_entry l of None \<Rightarrow> [] | Some t \<Rightarrow> [t]))" for xs
    by (induction xs) (simp_all add: win_entries_def)
  then show ?thesis
    by (simp add: eq)
qed

lemma sort_permuted: "mset xs = mset ys \<Longrightarrow> sort xs = sort ys"
  by (rule properties_for_sort) simp_all

lemma map_key_sort_key: "map f (sort_key f xs) = sort (map f xs)"
  by (rule properties_for_sort [symmetric]) simp_all


lemma top3_ratings_permuted:
  assumes "mset es' = mset es"
  shows "map fst (top3 es') = map fst (top3 es)"
proof -
  have "mset (map neg_rating es') = mset (map neg_rating es)"
    by (simp only: mset_map assms)
  then have "sort (map neg_rating es') = sort (map neg_rating es)"
    by (rule sort_permuted)
  then have same: "map neg_rating (sort_key neg_rating es') = map neg_rating (sort_key neg_rating es)"
    by (simp only: map_key_sort_key)
  have ratings: "map fst (top3 xs) = take 3 (map uminus (map neg_rating (sort_key neg_rating xs)))"
    for xs
    by (simp add: top3_def take_map neg_rating_def)
  show ?thesis
    unfolding ratings same ..
qed


lemma top3_permuted:
  assumes "mset es' = mset es" and "distinct (map fst es)"
  shows "top3 es' = top3 es"
proof -
  have "inj_on neg_rating (set es)"
    using assms(2) by (auto simp: distinct_map inj_on_def neg_rating_def)
  moreover have "set es' = set es"
    using assms(1) by (rule mset_eq_setD)
  ultimately have inj: "inj_on neg_rating (set es')"
    by (simp only:)
  have perm: "mset es' = mset (sort_key neg_rating es)"
    by (simp only: mset_sort assms(1))
  have "sorted (map neg_rating (sort_key neg_rating es))"
    by (rule sorted_sort_key)
  with perm inj have "sort_key neg_rating es' = sort_key neg_rating es"
    by (rule sort_key_inj_key_eq)
  then show ?thesis
    by (simp only: top3_def)
qed

lemma agree_total_upd: "agree s t \<Longrightarrow> agree (s\<lparr> total := n \<rparr>) (t\<lparr> total := n \<rparr>)"
  by (simp add: agree_def)

lemma buffered_timeline_Inr:
  "ingest_lines py username lines init_state = Inr st \<Longrightarrow>
     buffered_timeline py username lines = timeline st"
  by (simp add: buffered_timeline_def)

text \<open>
  C1, as the code has it. Let the lines of a response be delivered in two orders, and
  let \<^verbatim>\<open>fetch_game_stats\<close> return for both. The two results have the same \<open>total\<close>,
  speed counts, results by colour, endings, time forfeit counts, opponent rating sums,
  counts, per-speed sums and histogram, month, weekday and hour histograms, and the
  same \<open>longest_gap_ms\<close>. The ratings held in \<open>top_wins\<close> are the same; the entries
  themselves are the same when no two rated wins of the response have the same opponent
  rating. The two streak fields are the same when every key of the timeline is a finite
  number and no two entries have the same key, and then they are in particular the
  values obtained from the delivery in chronological order.
\<close>

theorem permuted_delivery:
  assumes perm: "mset lines' = mset lines"
    and run: "fetch_game_stats py username lines = Inr st"
    and run': "fetch_game_stats py username lines' = Inr st'"
  shows "total st' = total st
    \<and> speed_counts st' = speed_counts st
    \<and> other_speeds st' = other_speeds st
    \<and> results st' = results st
    \<and> color_results st' = color_results st
    \<and> endings st' = endings st
    \<and> timeout_wins st' = timeout_wins st
    \<and> timeout_losses st' = timeout_losses st
    \<and> opponent_rating_sum st' = opponent_rating_sum st
    \<and> opponent_rating_count st' = opponent_rating_count st
    \<and> opponent_by_speed st' = opponent_by_speed st
    \<and> opponent_hist st' = opponent_hist st
    \<and> month_counts st' = month_counts st
    \<and> wday_counts st' = wday_counts st
    \<and> hour_counts st' = hour_counts st
    \<and> longest_gap_ms st' = longest_gap_ms st
    \<and> map fst (top_wins st') = map fst (top_wins st)
    \<and> (distinct (map fst (concat (map (won_alone py username) lines))) \<longrightarrow>
         top_wins st' = top_wins st)
    \<and> (list_all (\<lambda>e. num_key (fst e) \<noteq> None) (buffered_timeline py username lines)
        \<and> distinct (map (\<lambda>e. key_value (fst e)) (buffered_timeline py username lines)) \<longrightarrow>
         longest_win_streak st' = longest_win_streak st
         \<and> longest_loss_streak st' = longest_loss_streak st)"
proof -
  from run obtain st0 where run0: "ingest_lines py username lines init_state = Inr st0"
    and fin: "finalize py st0 = Inr st"
    by (auto simp: fetch_game_stats_Inr)
  from run' obtain st0' where run0': "ingest_lines py username lines' init_state = Inr st0'"
    and fin': "finalize py st0' = Inr st'"
    by (auto simp: fetch_game_stats_Inr)
  from run0 have ok: "\<forall>raw_line \<in> set lines. line_ok py username raw_line"
    and st0: "st0 = (fold apply_locals (games py username lines) init_state)
                      \<lparr> total := total init_state + counted lines \<rparr>"
    by (auto simp: ingest_lines_Inr)
  from run0' have st0': "st0' = (fold apply_locals (games py username lines') init_state)
                      \<lparr> total := total init_state + counted lines' \<rparr>"
    by (auto simp: ingest_lines_Inr)
  have "agree (fold apply_locals (games py username lines') init_state)
              (fold apply_locals (games py username lines) init_state)"
    by (rule fold_permuted) (rule mset_games [OF perm])
  then have agree0: "agree st0' st0"
    unfolding st0 st0' counted_permuted [OF perm] by (rule agree_total_upd)
  note eq0 = agree0 [unfolded agree_def]
  have tl_mset: "mset (timeline st0') = mset (timeline st0)"
    and ts_mset: "mset (timestamps st0') = mset (timestamps st0)"
    using eq0 by blast+
  have tl_len: "length (timeline st0') = length (timeline st0)"
    using tl_mset by (rule mset_eq_length)
  have tl_set: "set (timeline st0') = set (timeline st0)"
    using tl_mset by (rule mset_eq_setD)
  have ts_len: "length (timestamps st0') = length (timestamps st0)"
    using ts_mset by (rule mset_eq_length)
  note fr = finalize_frame [OF fin] and fr' = finalize_frame [OF fin']
  have gap: "longest_gap_ms st' = longest_gap_ms st"
  proof -
    have "sort (timestamps st0') = sort (timestamps st0)"
      using ts_mset by (rule sort_permuted)
    moreover have "longest_gap_ms st0' = longest_gap_ms st0"
      using eq0 by blast
    ultimately show ?thesis
      by (simp add: finalize_gap [OF fin] finalize_gap [OF fin'] ts_len)
  qed
  have tw: "top_wins st = top3 (win_entries (games py username lines))"
    "top_wins st' = top3 (win_entries (games py username lines'))"
    using top_wins_ingest_lines [OF run0] top_wins_ingest_lines [OF run0'] fr(13) fr'(13)
    by simp_all
  have wins_mset: "mset (win_entries (games py username lines'))
      = mset (win_entries (games py username lines))"
    by (rule mset_entries) (rule mset_games [OF perm])
  have ratings: "map fst (top_wins st') = map fst (top_wins st)"
    unfolding tw by (rule top3_ratings_permuted [OF wins_mset])
  have wins: "top_wins st' = top_wins st"
    if "distinct (map fst (concat (map (won_alone py username) lines)))"
  proof -
    from that have "distinct (map fst (win_entries (games py username lines)))"
      by (simp only: won_alone_games [OF ok])
    then show ?thesis
      unfolding tw by (rule top3_permuted [OF wins_mset])
  qed
  have streaks: "longest_win_streak st' = longest_win_streak st
      \<and> longest_loss_streak st' = longest_loss_streak st"
    if numbers: "list_all (\<lambda>e. num_key (fst e) \<noteq> None) (buffered_timeline py username lines)"
      and distinct: "distinct (map (\<lambda>e. key_value (fst e)) (buffered_timeline py username lines))"
  proof -
    note buffered = buffered_timeline_Inr [OF run0]
    have keys: "list_all (\<lambda>e. num_key (fst e) \<noteq> None) (timeline st0)"
      using numbers by (simp only: buffered)
    then have keys': "list_all (\<lambda>e. num_key (fst e) \<noteq> None) (timeline st0')"
      by (simp only: list_all_iff tl_set)
    have tl: "timeline st = sort_key (\<lambda>e. key_value (fst e)) (timeline st0)"
      and tl': "timeline st' = sort_key (\<lambda>e. key_value (fst e)) (timeline st0')"
      by (rule finalize_timeline_numbers [OF fin keys],
          rule finalize_timeline_numbers [OF fin' keys'])
    from distinct have "inj_on (\<lambda>e. key_value (fst e)) (set (timeline st0))"
      by (simp add: buffered distinct_map)
    then have inj: "inj_on (\<lambda>e. key_value (fst e)) (set (timeline st0'))"
      by (simp only: tl_set)
    have "mset (timeline st0') = mset (timeline st)"
      by (simp add: tl tl_mset)
    moreover have "sorted (map (\<lambda>e. key_value (fst e)) (timeline st))"
      by (simp add: tl)
    ultimately have "sort_key (\<lambda>e. key_value (fst e)) (timeline st0') = timeline st"
      using inj by (intro sort_key_inj_key_eq)
    then have same: "timeline st' = timeline st"
      by (simp only: tl')
    show ?thesis
    proof (cases "timeline st0 = []")
      case True
      then have "timeline st0' = []"
        using tl_len by simp
      with True eq0 finalize_streaks_empty [OF fin] finalize_streaks_empty [OF fin']
      show ?thesis by simp
    next
      case False
      then have "timeline st0' \<noteq> []"
        using tl_len by auto
      from finalize_streaks [OF fin False] finalize_streaks [OF fin' this] show ?thesis
        by (simp add: same)
    qed
  qed
  have fields: "total st' = total st
    \<and> speed_counts st' = speed_counts st
    \<and> other_speeds st' = other_speeds st
    \<and> results st' = results st
    \<and> color_results st' = color_results st
    \<and> endings st' = endings st
    \<and> timeout_wins st' = timeout_wins st
    \<and> timeout_losses st' = timeout_losses st
    \<and> opponent_rating_sum st' = opponent_rating_sum st
    \<and> opponent_rating_count st' = opponent_rating_count st
    \<and> opponent_by_speed st' = opponent_by_speed st
    \<and> opponent_hist st' = opponent_hist st
    \<and> month_counts st' = month_counts st
    \<and> wday_counts st' = wday_counts st
    \<and> hour_counts st' = hour_counts st"
    using eq0 by (simp add: fr fr')
  show ?thesis
    using fields gap ratings wins streaks by blast
qed

theorem permuted_delivery_witness:
  "mset [late_loss_line, early_win_line, garbled_line]
     = mset [early_win_line, garbled_line, late_loss_line]
   \<and> distinct (map fst (concat (map (won_alone sample_py ''alice'')
                   [early_win_line, garbled_line, late_loss_line])))
   \<and> buffered_timeline sample_py ''alice'' [early_win_line, garbled_line, late_loss_line]
       = [(JInt 1735689600000, Win), (JInt 1738411200000, Loss)]
   \<and> (\<exists>st st'.
         fetch_game_stats sample_py ''alice'' [early_win_line, garbled_line, late_loss_line] = Inr st
       \<and> fetch_game_stats sample_py ''alice'' [late_loss_line, early_win_line, garbled_line] = Inr st'
       \<and> total st' = total st \<and> results st' = results st
       \<and> month_counts st' = month_counts st \<and> opponent_hist st' = opponent_hist st
       \<and> longest_gap_ms st' = longest_gap_ms st
       \<and> top_wins st' = top_wins st
       \<and> longest_win_streak st' = longest_win_streak st
       \<and> longest_loss_streak st' = longest_loss_streak st)
   \<and> mset [win_at_3_line, win_at_5_line, nan_loss_line]
       = mset [win_at_5_line, nan_loss_line, win_at_3_line]
   \<and> (\<exists>st st'.
         fetch_game_stats sample_py ''alice'' [win_at_5_line, nan_loss_line, win_at_3_line] = Inr st
       \<and> fetch_game_stats sample_py ''alice'' [win_at_3_line, win_at_5_line, nan_loss_line] = Inr st'
       \<and> total st' = total st \<and> results st' = results st
       \<and> hour_counts st' = hour_counts st
       \<and> longest_gap_ms st' = longest_gap_ms st
       \<and> top_wins st' = top_wins st)"
proof -
  have perm: "mset [late_loss_line, early_win_line, garbled_line]
     = mset [early_win_line, garbled_line, late_loss_line]"
    by simp
  have wins: "distinct (map fst (concat (map (won_alone sample_py ''alice'')
                   [early_win_line, garbled_line, late_loss_line])))"
    by code_simp
  have buffered: "buffered_timeline sample_py ''alice'' [early_win_line, garbled_line, late_loss_line]
       = [(JInt 1735689600000, Win), (JInt 1738411200000, Loss)]"
    by code_simp
  have keys: "list_all (\<lambda>e. num_key (fst e) \<noteq> None)
                (buffered_timeline sample_py ''alice'' [early_win_line, garbled_line, late_loss_line])
     \<and> distinct (map (\<lambda>e. key_value (fst e))
                (buffered_timeline sample_py ''alice'' [early_win_line, garbled_line, late_loss_line]))"
    by (simp add: buffered key_value_def)
  have "\<not> isl (fetch_game_stats sample_py ''alice'' [early_win_line, garbled_line, late_loss_line])"
    by code_simp
  then obtain st where run: "fetch_game_stats sample_py ''alice''
        [early_win_line, garbled_line, late_loss_line] = Inr st"
    by (cases "fetch_game_stats sample_py ''alice'' [early_win_line, garbled_line, late_loss_line]")
      auto
  have "\<not> isl (fetch_game_stats sample_py ''alice'' [late_loss_line, early_win_line, garbled_line])"
    by code_simp
  then obtain st' where run': "fetch_game_stats sample_py ''alice''
        [late_loss_line, early_win_line, garbled_line] = Inr st'"
    by (cases "fetch_game_stats sample_py ''alice'' [late_loss_line, early_win_line, garbled_line]")
      auto
  from permuted_delivery [OF perm run run'] wins keys run run'
  have first: "\<exists>st st'.
         fetch_game_stats sample_py ''alice'' [early_win_line, garbled_line, late_loss_line] = Inr st
       \<and> fetch_game_stats sample_py ''alice'' [late_loss_line, early_win_line, garbled_line] = Inr st'
       \<and> total st' = total st \<and> results st' = results st
       \<and> month_counts st' = month_counts st \<and> opponent_hist st' = opponent_hist st
       \<and> longest_gap_ms st' = longest_gap_ms st
       \<and> top_wins st' = top_wins st
       \<and> longest_win_streak st' = longest_win_streak st
       \<and> longest_loss_streak st' = longest_loss_streak st"
    by blast
  have perm2: "mset [win_at_3_line, win_at_5_line, nan_loss_line]
       = mset [win_at_5_line, nan_loss_line, win_at_3_line]"
    by simp
  have wins2: "distinct (map fst (concat (map (won_alone sample_py ''alice'')
                   [win_at_5_line, nan_loss_line, win_at_3_line])))"
    by code_simp
  have "\<not> isl (fetch_game_stats sample_py ''alice'' [win_at_5_line, nan_loss_line, win_at_3_line])"
    by code_simp
  then obtain st2 where run2: "fetch_game_stats sample_py ''alice''
        [win_at_5_line, nan_loss_line, win_at_3_line] = Inr st2"
    by (cases "fetch_game_stats sample_py ''alice'' [win_at_5_line, nan_loss_line, win_at_3_line]")
      auto
  have "\<not> isl (fetch_game_stats sample_py ''alice'' [win_at_3_line, win_at_5_line, nan_loss_line])"
    by code_simp
  then obtain st2' where run2': "fetch_game_stats sample_py ''alice''
        [win_at_3_line, win_at_5_line, nan_loss_line] = Inr st2'"
    by (cases "fetch_game_stats sample_py ''alice'' [win_at_3_line, win_at_5_line, nan_loss_line]")
      auto
  from permuted_delivery [OF perm2 run2 run2'] wins2 run2 run2'
  have second: "\<exists>st st'.
         fetch_game_stats sample_py ''alice'' [win_at_5_line, nan_loss_line, win_at_3_line] = Inr st
       \<and> fetch_game_stats sample_py ''alice'' [win_at_3_line, win_at_5_line, nan_loss_line] = Inr st'
       \<and> total st' = total st \<and> results st' = results st
       \<and> hour_counts st' = hour_counts st
       \<and> longest_gap_ms st' = longest_gap_ms st
       \<and> top_wins st' = top_wins st"
    by blast
  from perm wins buffered first perm2 second show ?thesis
    by (intro conjI)
qed

text \<open>
  C1 as worded fails on ties, because both sorts are stable, and on a timestamp that is
  not a number. Four wins against opponents of one rating, with four different
  timestamps: the three delivered first stay in \<open>top_wins\<close>, so reversing the delivery
  changes the entries held. Two wins and a loss that carry no timestamp, so that every
  delivery order is sorted by timestamp: the order win, loss, win gives a longest win
  streak of 1, the order win, win, loss gives 2. Two wins created at 5 and at 3
  milliseconds and a loss created at \<^verbatim>\<open>NaN\<close>, three different keys: in both orders
  below no key is less than the key before it, the sort leaves each as delivered, and
  the longest win streak is 1 in one and 2 in the other.
\<close>

theorem tied_wins_counterexample:
  "map_sum id top_wins
     (fetch_game_stats sample_py ''alice'' [tie_line_1, tie_line_2, tie_line_3, tie_line_4])
     = Inr [(1500, JString ''?'', JString ''g1''), (1500, JString ''?'', JString ''g2''),
            (1500, JString ''?'', JString ''g3'')]
   \<and> map_sum id top_wins
     (fetch_game_stats sample_py ''alice'' (rev [tie_line_1, tie_line_2, tie_line_3, tie_line_4]))
     = Inr [(1500, JString ''?'', JString ''g4''), (1500, JString ''?'', JString ''g3''),
            (1500, JString ''?'', JString ''g2'')]
   \<and> map_sum id longest_win_streak
     (fetch_game_stats sample_py ''alice'' [undated_win_line, undated_loss_line, undated_win_line])
     = Inr 1
   \<and> map_sum id longest_win_streak
     (fetch_game_stats sample_py ''alice'' [undated_win_line, undated_win_line, undated_loss_line])
     = Inr 2
   \<and> map_sum id longest_win_streak
     (fetch_game_stats sample_py ''alice'' [win_at_5_line, nan_loss_line, win_at_3_line])
     = Inr 1
   \<and> map_sum id longest_win_streak
     (fetch_game_stats sample_py ''alice'' [win_at_3_line, win_at_5_line, nan_loss_line])
     = Inr 2"
  by code_simp
end
